theory Spec2Isabelle
  imports Complex_Main "HOL-Library.Char_ord" "HOL-Library.List_Lexorder" "HOL-Library.AList"
begin

section \<open>JavaScript strings and numbers, as far as MediaSlicer.jsx uses them\<close>

text \<open>
  Strings are \<^typ>\<open>string\<close> (lists of 8-bit characters standing for code units).
  \<open>startsWith\<close>, \<open>endsWith\<close>, \<open>lastIndexOf\<close>, \<open>substring\<close> and \<open>padStart\<close> follow
  the ECMAScript operations of the same names: \<open>lastIndexOf\<close> answers \<open>-1\<close> when the
  character is absent, \<open>substring\<close> clamps both indices into \<open>0..length\<close> and swaps
  them when the first is larger, \<open>padStart\<close> only ever lengthens.
\<close>

definition startsWith :: "string \<Rightarrow> string \<Rightarrow> bool" where
  "startsWith s p = (take (length p) s = p)"

definition endsWith :: "string \<Rightarrow> string \<Rightarrow> bool" where
  "endsWith s p = (length p \<le> length s \<and> drop (length s - length p) s = p)"

fun lastIndexOf :: "string \<Rightarrow> char \<Rightarrow> int" where
  "lastIndexOf [] c = - 1"
| "lastIndexOf (x # xs) c =
     (let r = lastIndexOf xs c
      in if 0 \<le> r then r + 1 else if x = c then 0 else - 1)"

definition substring :: "string \<Rightarrow> int \<Rightarrow> int \<Rightarrow> string" where
  "substring s a b =
     (let n = int (length s);
          a' = max 0 (min a n);
          b' = max 0 (min b n);
          lo = min a' b';
          hi = max a' b'
      in take (nat (hi - lo)) (drop (nat lo) s))"

definition padStart :: "string \<Rightarrow> nat \<Rightarrow> char \<Rightarrow> string" where
  "padStart s n c = replicate (n - length s) c @ s"

text \<open>\<open>a || b\<close> on strings: the empty string is the only falsy string.\<close>

definition js_or :: "string \<Rightarrow> string \<Rightarrow> string" where
  "js_or a b = (if a = [] then b else a)"

text \<open>\<open>String(n)\<close> and \<open>n.toString()\<close> for integral numbers: decimal digits, a minus sign
  for negative values.\<close>

definition digit_char :: "nat \<Rightarrow> char" where
  "digit_char d = char_of (48 + d)"


fun show_nat :: "nat \<Rightarrow> string" where
  "show_nat n = (if n < 10 then [digit_char n] else show_nat (n div 10) @ [digit_char (n mod 10)])"

declare show_nat.simps [simp del]

definition show_int :: "int \<Rightarrow> string" where
  "show_int i = (if i < 0 then CHR ''-'' # show_nat (nat (- i)) else show_nat (nat i))"

subsection \<open>parseInt\<close>


definition digit_value :: "char \<Rightarrow> nat option" where
  "digit_value c =
     (let k = (of_char c :: nat)
      in if 48 \<le> k \<and> k \<le> 57 then Some (k - 48)
         else if 97 \<le> k \<and> k \<le> 122 then Some (k - 87)
         else if 65 \<le> k \<and> k \<le> 90 then Some (k - 55)
         else None)"


definition digits_value :: "nat \<Rightarrow> string \<Rightarrow> nat" where
  "digits_value r ds =
     foldl (\<lambda>acc c. acc * r + (case digit_value c of None \<Rightarrow> 0 | Some d \<Rightarrow> d)) 0 ds"




section \<open>Thrown values and their conversion to text\<close>

text \<open>
  A \<open>catch\<close> clause receives any value. The shapes that the two message extractions of
  \<open>handleProcess\<close> tell apart: the nullish values, primitives, \<open>Error\<close> objects (a
  name and a message), and other objects, which may or may not have a (string)
  \<open>message\<close> property and whose \<open>toString\<close> is inherited from \<open>Object.prototype\<close>, an own
  method returning a string, or absent (an object with no prototype).
\<close>

datatype to_string_method = Inherited | Custom string | Absent

datatype js_value =
    JUndefined
  | JNull
  | JBool bool
  | JNumber int
  | JString string
  | JError string string
  | JObject "string option" to_string_method

text \<open>\<open>v?.message\<close>; \<open>None\<close> is \<open>undefined\<close>.\<close>

fun get_message :: "js_value \<Rightarrow> string option" where
  "get_message (JError nm msg) = Some msg"
| "get_message (JObject m ts) = m"
| "get_message v = None"

text \<open>\<open>Error.prototype.toString\<close>.\<close>

definition error_toString :: "string \<Rightarrow> string \<Rightarrow> string" where
  "error_toString nm msg =
     (if nm = [] then msg else if msg = [] then nm else nm @ '': '' @ msg)"

text \<open>
  \<open>v?.toString()\<close>, written in the source on the variable \<open>var\<close>: the optional chain
  answers \<open>undefined\<close> for a nullish \<open>v\<close> only; calling a \<open>toString\<close> that is not there
  throws a \<open>TypeError\<close> (\<open>Inl\<close>), whose message names the expression.
\<close>

fun call_toString :: "string \<Rightarrow> js_value \<Rightarrow> js_value + string option" where
  "call_toString var JUndefined = Inr None"
| "call_toString var JNull = Inr None"
| "call_toString var (JBool b) = Inr (Some (if b then ''true'' else ''false''))"
| "call_toString var (JNumber n) = Inr (Some (show_int n))"
| "call_toString var (JString s) = Inr (Some s)"
| "call_toString var (JError nm msg) = Inr (Some (error_toString nm msg))"
| "call_toString var (JObject m Inherited) = Inr (Some ''[object Object]'')"
| "call_toString var (JObject m (Custom s)) = Inr (Some s)"
| "call_toString var (JObject m Absent) =
     Inl (JError ''TypeError'' (var @ ''?.toString is not a function''))"

text \<open>\<open>String(v)\<close>.\<close>

fun js_String :: "js_value \<Rightarrow> js_value + string" where
  "js_String JUndefined = Inr ''undefined''"
| "js_String JNull = Inr ''null''"
| "js_String (JBool b) = Inr (if b then ''true'' else ''false'')"
| "js_String (JNumber n) = Inr (show_int n)"
| "js_String (JString s) = Inr s"
| "js_String (JError nm msg) = Inr (error_toString nm msg)"
| "js_String (JObject m Inherited) = Inr ''[object Object]''"
| "js_String (JObject m (Custom s)) = Inr s"
| "js_String (JObject m Absent) =
     Inl (JError ''TypeError'' ''Cannot convert object to primitive value'')"

text \<open>
  \<open>v?.message || v?.toString() || String(v) || fallback\<close> (lines 105 and 173): the first
  operand that is a non-empty string is the result, and an operand that throws ends the
  evaluation.
\<close>

definition extract_message :: "string \<Rightarrow> string \<Rightarrow> js_value \<Rightarrow> js_value + string" where
  "extract_message var fallback v =
     (case get_message v of
        Some (c # cs) \<Rightarrow> Inr (c # cs)
      | _ \<Rightarrow>
        (case call_toString var v of
           Inl t \<Rightarrow> Inl t
         | Inr (Some (c # cs)) \<Rightarrow> Inr (c # cs)
         | Inr _ \<Rightarrow>
           (case js_String v of
              Inl t \<Rightarrow> Inl t
            | Inr (c # cs) \<Rightarrow> Inr (c # cs)
            | Inr [] \<Rightarrow> Inr fallback)))"

section \<open>The helpers of fileUtils\<close>

text \<open>
  \<open>sanitizeFilename\<close> and \<open>getFileExtension\<close> are imported from \<open>../utils/fileUtils\<close>,
  which is not among the sources. \<open>handleProcess\<close> takes them from an environment
  record; the two definitions below give the functions the specification describes.
\<close>

definition safe_chars :: "char list" where
  "safe_chars = ''ABCDEFGHIJKLMNOPQRSTUVWXYZabcdefghijklmnopqrstuvwxyz0123456789._-''"

definition is_safe_char :: "char \<Rightarrow> bool" where
  "is_safe_char c = (c \<in> set safe_chars)"

definition is_space_char :: "char \<Rightarrow> bool" where
  "is_space_char c = (c \<in> set [CHR '' '', CHR 0x09, CHR 0x0A, CHR 0x0B, CHR 0x0C, CHR 0x0D])"

definition sanitize_char :: "char \<Rightarrow> string" where
  "sanitize_char c = (if is_space_char c then ''_'' else if is_safe_char c then [c] else [])"

text \<open>
  Modelled from the spec: \<open>sanitizeFilename\<close> of \<open>utils/fileUtils\<close> is missing. Sections 3
  and 4.1: white space is replaced with an underscore, every other character outside
  \<open>[A-Za-z0-9._-]\<close> is stripped, and an empty result is replaced by a fixed fallback base
  name. The specification does not give the fallback, so it is the parameter \<open>fb\<close>.
\<close>

definition sanitize :: "string \<Rightarrow> string \<Rightarrow> string" where
  "sanitize fb s = js_or (concat (map sanitize_char s)) fb"

text \<open>
  Modelled from the spec: \<open>getFileExtension\<close> of \<open>utils/fileUtils\<close> is missing. Sections 3
  and 4.2: the extension is the substring after the final dot, empty when the name has
  no dot.
\<close>

definition extensionOf :: "string \<Rightarrow> string" where
  "extensionOf s =
     (let i = lastIndexOf s CHR ''.'' in if i < 0 then [] else drop (nat i + 1) s)"

section \<open>The engine session\<close>

text \<open>
  The object \<open>ffmpeg\<close> returned by the hook \<open>useFFmpeg\<close> is an external capability. Its
  virtual filesystem is an association list from entry names to contents. Every call is
  logged, and the \<open>n\<close>-th call made on the engine (counted from 0) is rejected with the
  value \<open>faults n\<close> when that is not \<open>None\<close>: any sequence of outcomes of a run is some
  choice of \<open>faults\<close>. A rejected call leaves the filesystem as it is, except \<open>exec\<close>,
  which has written the entries \<open>exec_writes argv\<close> whether it then returns or throws.
\<close>

type_synonym bytes = "nat list"

datatype engine_call =
    WriteFile string bytes
  | Exec "string list"
  | ListDir string
  | ReadFile string
  | DeleteFile string

record engine =
  vfs :: "(string \<times> bytes) list"
  calls :: "engine_call list"
  faults :: "nat \<Rightarrow> js_value option"
  exec_writes :: "string list \<Rightarrow> (string \<times> bytes) list"

definition engine_step :: "engine_call \<Rightarrow> engine \<Rightarrow> js_value option \<times> engine" where
  "engine_step c e = (faults e (length (calls e)), e\<lparr>calls := calls e @ [c]\<rparr>)"

definition writeFile :: "string \<Rightarrow> bytes \<Rightarrow> engine \<Rightarrow> (js_value + unit) \<times> engine" where
  "writeFile n d e =
     (case engine_step (WriteFile n d) e of
        (Some err, e') \<Rightarrow> (Inl err, e')
      | (None, e') \<Rightarrow> (Inr (), e'\<lparr>vfs := AList.update n d (vfs e')\<rparr>))"

definition write_all :: "(string \<times> bytes) list \<Rightarrow> (string \<times> bytes) list \<Rightarrow> (string \<times> bytes) list" where
  "write_all ws fs = fold (\<lambda>(n, d). AList.update n d) ws fs"

definition exec :: "string list \<Rightarrow> engine \<Rightarrow> (js_value + unit) \<times> engine" where
  "exec argv e =
     (case engine_step (Exec argv) e of
        (r, e') \<Rightarrow>
          (let e'' = e'\<lparr>vfs := write_all (exec_writes e' argv) (vfs e')\<rparr>
           in case r of Some err \<Rightarrow> (Inl err, e'') | None \<Rightarrow> (Inr (), e'')))"

definition listDir :: "string \<Rightarrow> engine \<Rightarrow> (js_value + string list) \<times> engine" where
  "listDir path e =
     (case engine_step (ListDir path) e of
        (Some err, e') \<Rightarrow> (Inl err, e')
      | (None, e') \<Rightarrow> (Inr (map fst (vfs e')), e'))"

definition readFile :: "string \<Rightarrow> engine \<Rightarrow> (js_value + bytes) \<times> engine" where
  "readFile n e =
     (case engine_step (ReadFile n) e of
        (Some err, e') \<Rightarrow> (Inl err, e')
      | (None, e') \<Rightarrow>
          (case map_of (vfs e') n of
             None \<Rightarrow> (Inl (JError ''ErrnoError'' ''FS error''), e')
           | Some d \<Rightarrow> (Inr d, e')))"

definition deleteFile :: "string \<Rightarrow> engine \<Rightarrow> (js_value + unit) \<times> engine" where
  "deleteFile n e =
     (case engine_step (DeleteFile n) e of
        (Some err, e') \<Rightarrow> (Inl err, e')
      | (None, e') \<Rightarrow> (Inr (), e'\<lparr>vfs := AList.delete n (vfs e')\<rparr>))"

section \<open>The component state\<close>

text \<open>
  \<open>source_file\<close> is the selected \<open>File\<close>: its name and what \<open>arrayBuffer()\<close> settles to.
  \<open>app\<close> holds the React state of \<open>MediaSlicer\<close> and the values of the hook, together
  with what an observer of the run sees: the values passed to \<open>setProgress\<close> in order
  (\<open>emitted\<close>), the archives handed to the browser as downloads, oldest first (file
  name and entries), and whether the three-second reset timer was started.
\<close>

record source_file =
  name :: string
  arrayBuffer :: "js_value + bytes"

type_synonym archive = "(string \<times> bytes) list"

record app =
  "file" :: "source_file option"
  segmentLength :: int
  isProcessing :: bool
  progress :: rat
  status :: string
  error :: string
  isLoaded :: bool
  ffmpeg :: "engine option"
  emitted :: "rat list"
  downloads :: "(string \<times> archive) list"
  resetScheduled :: bool

definition setIsProcessing :: "bool \<Rightarrow> app \<Rightarrow> app" where
  "setIsProcessing b st = st\<lparr>isProcessing := b\<rparr>"

definition setProgress :: "rat \<Rightarrow> app \<Rightarrow> app" where
  "setProgress p st = st\<lparr>progress := p, emitted := emitted st @ [p]\<rparr>"

definition setStatus :: "string \<Rightarrow> app \<Rightarrow> app" where
  "setStatus s st = st\<lparr>status := s\<rparr>"

definition setError :: "string \<Rightarrow> app \<Rightarrow> app" where
  "setError s st = st\<lparr>error := s\<rparr>"

definition setFile :: "source_file option \<Rightarrow> app \<Rightarrow> app" where
  "setFile f st = st\<lparr>file := f\<rparr>"



text \<open>The callback of \<open>setTimeout\<close> (lines 161 to 168), run three seconds after a success.\<close>

definition resetAfterDelay :: "app \<Rightarrow> app" where
  "resetAfterDelay st = setStatus [] (setProgress 0 (setFile None (st\<lparr>resetScheduled := False\<rparr>)))"

section \<open>handleProcess\<close>

text \<open>
  What \<open>MediaSlicer.jsx\<close> imports and \<open>src/\<close> does not hold: the two helpers of
  \<open>fileUtils\<close>, and the outcome of JSZip's \<open>generateAsync\<close> (\<open>None\<close>: it yields the blob).
\<close>

record env =
  sanitizeFilename :: "string \<Rightarrow> string"
  getFileExtension :: "string \<Rightarrow> string"
  generateAsync_fault :: "js_value option"

definition baseNameOf :: "string \<Rightarrow> string" where
  "baseNameOf sanitized = js_or (substring sanitized 0 (lastIndexOf sanitized CHR ''.'')) sanitized"

definition outputExtOf :: "string \<Rightarrow> string" where
  "outputExtOf ext = js_or ext ''mp4''"

definition exec_args :: "string \<Rightarrow> int \<Rightarrow> string \<Rightarrow> string list" where
  "exec_args sanitized seglen outputExt =
     [''-i'', sanitized,
      ''-f'', ''segment'',
      ''-segment_time'', show_int seglen,
      ''-c'', ''copy'',
      ''-reset_timestamps'', ''1'',
      ''-segment_format'', (if outputExt = ''mp3'' \<or> outputExt = ''wav'' then outputExt else ''mp4''),
      ''out_%02d.'' @ outputExt]"

text \<open>The filter and sort of lines 114 to 116. \<open>localeCompare\<close> is taken as the
  lexicographic order of the code units.\<close>

definition is_output :: "string \<Rightarrow> string \<Rightarrow> bool" where
  "is_output outputExt n = (startsWith n ''out_'' \<and> endsWith n (CHR ''.'' # outputExt))"

definition select_outputs :: "string \<Rightarrow> string list \<Rightarrow> string list" where
  "select_outputs outputExt files = sort (filter (is_output outputExt) files)"

text \<open>\<open>zip.file(name, data)\<close>: a later entry of the same name replaces the earlier one.\<close>

definition zip_file :: "string \<Rightarrow> bytes \<Rightarrow> archive \<Rightarrow> archive" where
  "zip_file n d z = AList.update n d z"

definition zipFileName :: "string \<Rightarrow> string \<Rightarrow> nat \<Rightarrow> string" where
  "zipFileName baseName outputExt i =
     baseName @ ''_segment_'' @ padStart (show_nat (i + 1)) 2 CHR ''0'' @ ''.'' @ outputExt"

definition archiving_progress :: "nat \<Rightarrow> nat \<Rightarrow> rat" where
  "archiving_progress i len = 70 + of_nat (i + 1) / of_nat len * 20"

text \<open>
  The loop of lines 128 to 135 at index \<open>i\<close>, over the output files from \<open>i\<close> on;
  \<open>len\<close> is \<open>outputFiles.length\<close>. A rejected \<open>readFile\<close> leaves the loop.
\<close>

fun archive_loop ::
  "string \<Rightarrow> string \<Rightarrow> nat \<Rightarrow> nat \<Rightarrow> string list \<Rightarrow> archive \<Rightarrow> app \<Rightarrow> engine \<Rightarrow>
     (js_value + archive) \<times> app \<times> engine" where
  "archive_loop baseName outputExt len i [] z st e = (Inr z, st, e)"
| "archive_loop baseName outputExt len i (outputFile # rest) z st e =
     (case readFile outputFile e of
        (Inl err, e') \<Rightarrow> (Inl err, st, e')
      | (Inr data, e') \<Rightarrow>
          archive_loop baseName outputExt len (i + 1) rest
            (zip_file (zipFileName baseName outputExt i) data z)
            (setProgress (archiving_progress i len) st) e')"

text \<open>The loop of lines 152 to 154: the first rejected deletion leaves it.\<close>

fun delete_outputs :: "string list \<Rightarrow> engine \<Rightarrow> (js_value + unit) \<times> engine" where
  "delete_outputs [] e = (Inr (), e)"
| "delete_outputs (outputFile # rest) e =
     (case deleteFile outputFile e of
        (Inl err, e') \<Rightarrow> (Inl err, e')
      | (Inr u, e') \<Rightarrow> delete_outputs rest e')"

text \<open>Lines 137 to 168: the archive is generated and handed over, the engine's files are
  deleted, success is reported and the reset timer started.\<close>

definition finalizing ::
  "env \<Rightarrow> string \<Rightarrow> string \<Rightarrow> string list \<Rightarrow> archive \<Rightarrow> app \<Rightarrow> engine \<Rightarrow>
     (js_value + unit) \<times> app \<times> engine" where
  "finalizing env sanitized baseName outputFiles z st e =
     (let st1 = setStatus ''Finalizing ZIP file...'' (setProgress 95 st)
      in case generateAsync_fault env of
           Some err \<Rightarrow> (Inl err, st1, e)
         | None \<Rightarrow>
             (let st2 = st1\<lparr>downloads := downloads st1 @ [(baseName @ ''_segments.zip'', z)]\<rparr>
              in case delete_outputs outputFiles e of
                   (Inl err, e1) \<Rightarrow> (Inl err, st2, e1)
                 | (Inr u, e1) \<Rightarrow>
                     (case deleteFile sanitized e1 of
                        (Inl err, e2) \<Rightarrow> (Inl err, st2, e2)
                      | (Inr u', e2) \<Rightarrow>
                          (Inr (),
                           (setStatus (''Success! Created '' @ show_nat (length outputFiles)
                                         @ '' segments. Download started.'')
                              (setProgress 100 st2))\<lparr>resetScheduled := True\<rparr>,
                           e2))))"

text \<open>Lines 122 to 168: the archive is filled from the output files, then finalized.\<close>

definition archiving ::
  "env \<Rightarrow> string \<Rightarrow> string \<Rightarrow> string \<Rightarrow> string list \<Rightarrow> app \<Rightarrow> engine \<Rightarrow>
     (js_value + unit) \<times> app \<times> engine" where
  "archiving env sanitized baseName outputExt outputFiles st e =
     (let st1 = setStatus (''Creating ZIP file with '' @ show_nat (length outputFiles)
                             @ '' segments...'')
                  (setProgress 70 st)
      in case archive_loop baseName outputExt (length outputFiles) 0 outputFiles [] st1 e of
           (Inl err, st2, e1) \<Rightarrow> (Inl err, st2, e1)
         | (Inr z, st2, e1) \<Rightarrow> finalizing env sanitized baseName outputFiles z st2 e1)"

text \<open>Lines 109 to 120: the listing and the zero-output guard.\<close>

definition collecting ::
  "env \<Rightarrow> string \<Rightarrow> string \<Rightarrow> string \<Rightarrow> app \<Rightarrow> engine \<Rightarrow> (js_value + unit) \<times> app \<times> engine" where
  "collecting env sanitized baseName outputExt st e =
     (let st1 = setStatus ''Collecting segments...'' (setProgress 60 st)
      in case listDir ''/'' e of
           (Inl err, e1) \<Rightarrow> (Inl err, st1, e1)
         | (Inr files, e1) \<Rightarrow>
             (let outputFiles = select_outputs outputExt files
              in if length outputFiles = 0
                 then (Inl (JError ''Error''
                         ''No output files were created. The file might be too short or there was an error.''),
                       st1, e1)
                 else archiving env sanitized baseName outputExt outputFiles st1 e1))"

text \<open>The inner \<open>catch\<close> clause, lines 103 to 107: the value it throws. Whatever \<open>exec\<close>
  threw is wrapped into a new \<open>Error\<close>, unless extracting its message throws first.\<close>

definition inner_catch :: "js_value \<Rightarrow> js_value" where
  "inner_catch execErr =
     (case extract_message ''execErr'' ''FFmpeg execution failed'' execErr of
        Inl t \<Rightarrow> t
      | Inr execErrorMessage \<Rightarrow> JError ''Error'' (''FFmpeg processing failed: '' @ execErrorMessage))"

text \<open>Lines 93 to 107: the segmentation command.\<close>

definition segmenting :: "string \<Rightarrow> int \<Rightarrow> string \<Rightarrow> engine \<Rightarrow> (js_value + unit) \<times> engine" where
  "segmenting sanitized seglen outputExt e =
     (case exec (exec_args sanitized seglen outputExt) e of
        (Inl execErr, e') \<Rightarrow> (Inl (inner_catch execErr), e')
      | (Inr u, e') \<Rightarrow> (Inr (), e'))"

text \<open>The \<open>try\<close> block, lines 71 to 168.\<close>

definition try_block ::
  "env \<Rightarrow> source_file \<Rightarrow> int \<Rightarrow> app \<Rightarrow> engine \<Rightarrow> (js_value + unit) \<times> app \<times> engine" where
  "try_block env f seglen st e =
     (let sanitized = sanitizeFilename env (name f);
          ext = getFileExtension env sanitized;
          baseName = baseNameOf sanitized;
          st1 = setStatus ''Loading file into FFmpeg...'' st
      in case arrayBuffer f of
           Inl err \<Rightarrow> (Inl err, st1, e)
         | Inr fileData \<Rightarrow>
             (case writeFile sanitized fileData e of
                (Inl err, e1) \<Rightarrow> (Inl err, st1, e1)
              | (Inr u, e1) \<Rightarrow>
                  (let st2 = setProgress 10 st1;
                       outputExt = outputExtOf ext;
                       st3 = setStatus ''Slicing media file...'' st2
                   in case segmenting sanitized seglen outputExt e1 of
                        (Inl err, e2) \<Rightarrow> (Inl err, st3, e2)
                      | (Inr u', e2) \<Rightarrow> collecting env sanitized baseName outputExt st3 e2)))"

text \<open>The loop of lines 182 to 186: a rejected deletion is swallowed by \<open>.catch\<close>.\<close>

fun cleanup_loop :: "string \<Rightarrow> string list \<Rightarrow> engine \<Rightarrow> engine" where
  "cleanup_loop sanitized [] e = e"
| "cleanup_loop sanitized (f # rest) e =
     (if f = sanitized \<or> startsWith f ''out_''
      then cleanup_loop sanitized rest (snd (deleteFile f e))
      else cleanup_loop sanitized rest e)"

text \<open>Lines 178 to 190; \<open>ffmpeg\<close> is not null here, \<open>handleProcess\<close> has returned early
  otherwise. A rejected listing is caught and logged.\<close>

definition cleanup :: "env \<Rightarrow> source_file \<Rightarrow> engine \<Rightarrow> engine" where
  "cleanup env f e =
     (let sanitized = sanitizeFilename env (name f)
      in case listDir ''/'' e of
           (Inl cleanupErr, e') \<Rightarrow> e'
         | (Inr files, e') \<Rightarrow> cleanup_loop sanitized files e')"

text \<open>The \<open>catch\<close> clause, lines 170 to 190. When the extraction of the message throws,
  the clause is left at once, with neither the error shown nor the cleanup made.\<close>

definition catch_block ::
  "env \<Rightarrow> source_file \<Rightarrow> js_value \<Rightarrow> app \<Rightarrow> engine \<Rightarrow> js_value option \<times> app \<times> engine" where
  "catch_block env f err st e =
     (case extract_message ''err'' ''Unknown error occurred'' err of
        Inl t \<Rightarrow> (Some t, st, e)
      | Inr errorMessage \<Rightarrow>
          (None,
           setStatus [] (setError (''Error processing file: '' @ errorMessage) st),
           cleanup env f e))"

text \<open>The run proper, from line 66 on, with \<open>finally\<close>.\<close>

definition run :: "env \<Rightarrow> source_file \<Rightarrow> engine \<Rightarrow> app \<Rightarrow> js_value option \<times> app" where
  "run env f e st =
     (let st1 = setStatus ''Processing... This may take a while for large files.''
                  (setProgress 0 (setError [] (setIsProcessing True st)))
      in case try_block env f (segmentLength st) st1 e of
           (Inr u, st2, e2) \<Rightarrow> (None, setIsProcessing False (st2\<lparr>ffmpeg := Some e2\<rparr>))
         | (Inl err, st2, e2) \<Rightarrow>
             (case catch_block env f err st2 e2 of
                (r, st3, e3) \<Rightarrow> (r, setIsProcessing False (st3\<lparr>ffmpeg := Some e3\<rparr>))))"

text \<open>
  \<open>handleProcess\<close>: the promise it returns is fulfilled (\<open>None\<close>) or rejected with a value,
  and the state is what the component and the engine hold when it settles.
\<close>

definition handleProcess :: "env \<Rightarrow> app \<Rightarrow> js_value option \<times> app" where
  "handleProcess env st =
     (if file st = None \<or> \<not> isLoaded st
      then (None, setError ''Please select a file and wait for FFmpeg to load.'' st)
      else if ffmpeg st = None
      then (None, setError ''FFmpeg is not initialized. Please wait for it to load.'' st)
      else if segmentLength st \<le> 0
      then (None, setError ''Segment length must be greater than 0.'' st)
      else (case (file st, ffmpeg st) of
              (Some f, Some e) \<Rightarrow> run env f e st
            | _ \<Rightarrow> (None, st)))"

section \<open>Observations and scenarios\<close>

text \<open>The names resident in the engine's virtual filesystem, as the state holds it.\<close>

definition virtualFiles :: "app \<Rightarrow> string list" where
  "virtualFiles st = (case ffmpeg st of None \<Rightarrow> [] | Some e \<Rightarrow> map fst (vfs e))"

text \<open>The engine calls made so far.\<close>

definition engineCalls :: "app \<Rightarrow> engine_call list" where
  "engineCalls st = (case ffmpeg st of None \<Rightarrow> [] | Some e \<Rightarrow> calls e)"

text \<open>What an observer sees when \<open>handleProcess\<close> has settled: the rejection value if any,
  the error and status lines, the busy flag, the progress values in order, the archives
  delivered, and the names left in the virtual filesystem.\<close>

definition observe ::
  "js_value option \<times> app \<Rightarrow>
     js_value option \<times> string \<times> string \<times> bool \<times> rat list \<times> (string \<times> archive) list \<times> string list" where
  "observe r =
     (fst r, error (snd r), status (snd r), isProcessing (snd r), emitted (snd r),
      downloads (snd r), virtualFiles (snd r))"

text \<open>
  What \<open>listDir\<close> answers at line 113 when the input \<open>data\<close> has been written and the
  segment command has run, and the output files that lines 114 to 116 select from it.
\<close>

definition listing :: "env \<Rightarrow> source_file \<Rightarrow> bytes \<Rightarrow> int \<Rightarrow> engine \<Rightarrow> string list" where
  "listing env f data seglen e =
     (let sanitized = sanitizeFilename env (name f);
          outputExt = outputExtOf (getFileExtension env sanitized)
      in map fst (write_all (exec_writes e (exec_args sanitized seglen outputExt))
                    (AList.update sanitized data (vfs e))))"

definition outputFiles :: "env \<Rightarrow> source_file \<Rightarrow> bytes \<Rightarrow> int \<Rightarrow> engine \<Rightarrow> string list" where
  "outputFiles env f data seglen e =
     select_outputs (outputExtOf (getFileExtension env (sanitizeFilename env (name f))))
       (listing env f data seglen e)"


text \<open>
  Between two states, progress values were emitted in non-decreasing order, each of them
  between \<open>lo\<close> and \<open>hi\<close>.
\<close>

definition emits :: "app \<Rightarrow> app \<Rightarrow> rat \<Rightarrow> rat \<Rightarrow> bool" where
  "emits st st' lo hi =
     (\<exists>ps. emitted st' = emitted st @ ps \<and> sorted ps \<and> (\<forall>p\<in>set ps. lo \<le> p \<and> p \<le> hi))"

text \<open>
  Concrete inputs: the helpers as the specification describes them (fallback name
  \<open>file\<close>), an engine with an empty filesystem whose calls are rejected as \<open>fl\<close> says and
  whose segment command writes the entries \<open>ws\<close>, and a component with a file selected
  and the engine loaded.
\<close>

definition spec_env :: env where
  "spec_env =
     \<lparr>sanitizeFilename = sanitize ''file'', getFileExtension = extensionOf,
      generateAsync_fault = None\<rparr>"

definition fresh_engine :: "(nat \<Rightarrow> js_value option) \<Rightarrow> (string \<times> bytes) list \<Rightarrow> engine" where
  "fresh_engine fl ws = \<lparr>vfs = [], calls = [], faults = fl, exec_writes = (\<lambda>argv. ws)\<rparr>"

definition ready_app :: "string \<Rightarrow> int \<Rightarrow> engine \<Rightarrow> app" where
  "ready_app nm n e =
     \<lparr>file = Some \<lparr>name = nm, arrayBuffer = Inr [7, 8, 9]\<rparr>, segmentLength = n,
      isProcessing = False, progress = 0, status = ''File selected. Ready to process.'',
      error = [], isLoaded = True, ffmpeg = Some e, emitted = [], downloads = [],
      resetScheduled = False\<rparr>"

text \<open>The scenarios that the theorems below are run on.\<close>

definition busy :: js_value where
  "busy = JError ''Error'' ''busy''"

definition clip_mov :: string where
  "clip_mov = ''My Clip (2024).mov''"

text \<open>Scenario A as the specification words it, and with outputs that carry the
  extension of the input.\<close>

definition scenario_A_mp4 :: app where
  "scenario_A_mp4 =
     ready_app clip_mov 30
       (fresh_engine (\<lambda>n. None)
          [(''out_01.mp4'', [11]), (''out_02.mp4'', [12]), (''out_03.mp4'', [13])])"

definition scenario_A_mov :: app where
  "scenario_A_mov =
     ready_app clip_mov 30
       (fresh_engine (\<lambda>n. None)
          [(''out_01.mov'', [11]), (''out_02.mov'', [12]), (''out_03.mov'', [13])])"

text \<open>\<open>exec\<close> (call 1) writes one segment and throws; in the second scenario every call
  from the first deletion of the cleanup on (call 3) is rejected as well.\<close>

definition exec_throws :: app where
  "exec_throws =
     ready_app ''clip.mp4'' 30
       (fresh_engine (\<lambda>n. if n = 1 then Some (JString ''boom'') else None)
          [(''out_01.mp4'', [11])])"

definition exec_throws_stuck :: app where
  "exec_throws_stuck =
     ready_app ''clip.mp4'' 30
       (fresh_engine (\<lambda>n. if n = 1 then Some (JString ''boom'') else if 3 \<le> n then Some busy else None)
          [(''out_01.mp4'', [11])])"

text \<open>\<open>exec\<close> returns and has written nothing; in the second scenario the deletion of
  the input by the cleanup (call 4) is rejected.\<close>

definition no_outputs :: app where
  "no_outputs = ready_app ''clip.mp4'' 30 (fresh_engine (\<lambda>n. None) [])"

definition no_outputs_stuck :: app where
  "no_outputs_stuck =
     ready_app ''clip.mp4'' 30 (fresh_engine (\<lambda>n. if n = 4 then Some busy else None) [])"

text \<open>Everything succeeds up to the download; the first deletion of the success path
  (call 4) is rejected.\<close>

definition delete_rejected :: app where
  "delete_rejected =
     ready_app ''clip.mp4'' 30
       (fresh_engine (\<lambda>n. if n = 4 then Some busy else None) [(''out_01.mp4'', [11])])"

text \<open>\<open>exec\<close> throws an object that has neither a \<open>message\<close> nor a \<open>toString\<close>.\<close>

definition exec_throws_bare_object :: app where
  "exec_throws_bare_object =
     ready_app ''clip.mp4'' 30
       (fresh_engine (\<lambda>n. if n = 1 then Some (JObject None Absent) else None) [])"

text \<open>Segment length 0.\<close>

definition length_zero :: app where
  "length_zero = ready_app ''clip.mp4'' 0 (fresh_engine (\<lambda>n. None) [])"

text \<open>An engine holding the input, a stale segment and a file of another origin, with no
  call rejected.\<close>

definition littered_engine :: engine where
  "littered_engine =
     \<lparr>vfs = [(''clip.mp4'', [21]), (''out_07.mp4'', [22]), (''keep.txt'', [23])], calls = [],
      faults = (\<lambda>n. None), exec_writes = (\<lambda>argv. [])\<rparr>"

definition clip_mp4 :: source_file where
  "clip_mp4 = \<lparr>name = ''clip.mp4'', arrayBuffer = Inr [7, 8, 9]\<rparr>"

section \<open>The filename sanitizer\<close>

lemma lastIndexOf_lower: "- 1 \<le> lastIndexOf s c"
  by (induction s) (auto simp: Let_def)

lemma lastIndexOf_absent: "c \<notin> set s \<Longrightarrow> lastIndexOf s c = - 1"
  by (induction s) (auto simp: Let_def)

lemma lastIndexOf_present: "c \<in> set s \<Longrightarrow> 0 \<le> lastIndexOf s c"
  by (induction s) (auto simp: Let_def)

lemma lastIndexOf_append: "c \<notin> set e \<Longrightarrow> lastIndexOf (a @ c # e) c = int (length a)"
  by (induction a) (auto simp: Let_def lastIndexOf_absent)

lemma extensionOf_append: "CHR ''.'' \<notin> set e \<Longrightarrow> extensionOf (a @ CHR ''.'' # e) = e"
  by (simp add: extensionOf_def lastIndexOf_append)

lemma extensionOf_no_dot: "CHR ''.'' \<notin> set s \<Longrightarrow> extensionOf s = []"
  by (simp add: extensionOf_def lastIndexOf_absent)

lemma underscore_safe: "is_safe_char CHR ''_''"
  by (simp add: is_safe_char_def safe_chars_def)

lemma dot_safe: "is_safe_char CHR ''.''"
  by (simp add: is_safe_char_def safe_chars_def)

lemma safe_not_space: "is_safe_char c \<Longrightarrow> \<not> is_space_char c"
  by (auto simp: is_safe_char_def safe_chars_def is_space_char_def)

lemma sanitize_char_safe: "set (sanitize_char c) \<subseteq> set safe_chars"
  using underscore_safe by (auto simp: sanitize_char_def is_safe_char_def)

lemma sanitize_chars_safe: "set (concat (map sanitize_char s)) \<subseteq> set safe_chars"
  using sanitize_char_safe by auto

lemma sanitize_chars_fixed: "set s \<subseteq> set safe_chars \<Longrightarrow> concat (map sanitize_char s) = s"
  by (induction s) (auto simp: sanitize_char_def safe_not_space is_safe_char_def)

lemma sanitize_chars_no_dot: "CHR ''.'' \<notin> set s \<Longrightarrow> CHR ''.'' \<notin> set (concat (map sanitize_char s))"
  by (induction s) (auto simp: sanitize_char_def split: if_splits)

lemma sanitize_char_dot: "sanitize_char CHR ''.'' = ''.''"
  by (simp add: sanitize_char_def dot_safe is_space_char_def)

lemma sanitize_safe:
  assumes "set fb \<subseteq> set safe_chars"
  shows "set (sanitize fb s) \<subseteq> set safe_chars"
  using assms sanitize_chars_safe [of s] by (simp add: sanitize_def js_or_def)

lemma sanitize_nonempty: "fb \<noteq> [] \<Longrightarrow> sanitize fb s \<noteq> []"
  by (simp add: sanitize_def js_or_def)

lemma sanitize_idem:
  assumes "fb \<noteq> []" "set fb \<subseteq> set safe_chars"
  shows "sanitize fb (sanitize fb s) = sanitize fb s"
proof -
  have "concat (map sanitize_char (sanitize fb s)) = sanitize fb s"
    using sanitize_safe [OF assms(2)] by (rule sanitize_chars_fixed)
  moreover have "sanitize fb s \<noteq> []" using assms(1) by (rule sanitize_nonempty)
  ultimately show ?thesis by (simp add: sanitize_def [of fb "sanitize fb s"] js_or_def)
qed

lemma sanitize_extension:
  assumes dot: "CHR ''.'' \<in> set s"
  shows "extensionOf (sanitize fb s) = concat (map sanitize_char (extensionOf s))"
proof -
  from dot obtain a e where s: "s = a @ CHR ''.'' # e" and e: "CHR ''.'' \<notin> set e"
    by (auto dest: split_list_last)
  have ext: "extensionOf s = e" using e by (simp add: s extensionOf_append)
  have body: "concat (map sanitize_char s)
      = concat (map sanitize_char a) @ CHR ''.'' # concat (map sanitize_char e)"
    by (simp add: s sanitize_char_dot)
  then have "sanitize fb s = concat (map sanitize_char a) @ CHR ''.'' # concat (map sanitize_char e)"
    by (simp add: sanitize_def js_or_def)
  then show ?thesis
    using sanitize_chars_no_dot [OF e] by (simp add: extensionOf_append ext)
qed

text \<open>
  C8, amended. With a fallback name that is itself non-empty and made of safe characters,
  for every string \<open>s\<close>: \<open>sanitize s\<close> contains only characters of \<open>[A-Za-z0-9._-]\<close>, is
  never empty, and is a fixed point of \<open>sanitize\<close> (idempotence). When \<open>s\<close> has a final
  dot-delimited extension, the extension of \<open>sanitize s\<close> is the sanitized extension of
  \<open>s\<close>; so it is preserved exactly, case included, whenever it consists of safe
  characters. (The function is a total HOL function, hence deterministic and pure.)
\<close>

theorem sanitize_properties:
  assumes "fb \<noteq> []" and "set fb \<subseteq> set safe_chars"
  shows "set (sanitize fb s) \<subseteq> set safe_chars
       \<and> sanitize fb s \<noteq> []
       \<and> sanitize fb (sanitize fb s) = sanitize fb s
       \<and> (CHR ''.'' \<in> set s \<longrightarrow>
            extensionOf (sanitize fb s) = concat (map sanitize_char (extensionOf s)))
       \<and> (CHR ''.'' \<in> set s \<and> set (extensionOf s) \<subseteq> set safe_chars \<longrightarrow>
            extensionOf (sanitize fb s) = extensionOf s)"
  using assms
  by (simp add: sanitize_safe sanitize_nonempty sanitize_idem sanitize_extension sanitize_chars_fixed)

theorem sanitize_properties_witness:
  "''file'' \<noteq> [] \<and> set ''file'' \<subseteq> set safe_chars
   \<and> sanitize ''file'' ''My Clip (2024).mov'' = ''My_Clip_2024.mov''
   \<and> set ''My_Clip_2024.mov'' \<subseteq> set safe_chars
   \<and> sanitize ''file'' ''My_Clip_2024.mov'' = ''My_Clip_2024.mov''
   \<and> CHR ''.'' \<in> set ''My Clip (2024).mov''
   \<and> set (extensionOf ''My Clip (2024).mov'') \<subseteq> set safe_chars
   \<and> extensionOf ''My Clip (2024).mov'' = ''mov''
   \<and> extensionOf ''My_Clip_2024.mov'' = ''mov''"
proof -
  have fb: "''file'' \<noteq> []" "set ''file'' \<subseteq> set safe_chars"
    by (simp_all add: safe_chars_def)
  have v: "sanitize ''file'' ''My Clip (2024).mov'' = ''My_Clip_2024.mov''"
    by (simp add: sanitize_def js_or_def sanitize_char_def is_space_char_def is_safe_char_def
        safe_chars_def)
  have e: "extensionOf ''My Clip (2024).mov'' = ''mov''"
    by (simp add: extensionOf_def Let_def)
  have d: "CHR ''.'' \<in> set ''My Clip (2024).mov''" by simp
  from sanitize_properties [OF fb, of "''My Clip (2024).mov''"] fb v e d
  show ?thesis
    by (simp add: safe_chars_def sanitize_char_def is_space_char_def is_safe_char_def)
qed

text \<open>
  The claim as stated fails for the extension: no result made of safe characters only
  can keep, for instance, the extension \<open>m(p)4\<close>.
\<close>

theorem sanitize_extension_counterexample:
  "extensionOf ''clip.m(p)4'' = ''m(p)4''
   \<and> sanitize ''file'' ''clip.m(p)4'' = ''clip.mp4''
   \<and> extensionOf (sanitize ''file'' ''clip.m(p)4'') \<noteq> extensionOf ''clip.m(p)4''"
  by (simp add: sanitize_def js_or_def sanitize_char_def is_space_char_def is_safe_char_def
      safe_chars_def extensionOf_def Let_def)

section \<open>The segment-length input\<close>

lemma digit_value_digit_char: "d < 10 \<Longrightarrow> digit_value (digit_char d) = Some d"
  by (simp add: digit_value_def digit_char_def Let_def)






lemma digits_value_snoc:
  "digits_value r (ds @ [c])
     = digits_value r ds * r + (case digit_value c of None \<Rightarrow> 0 | Some d \<Rightarrow> d)"
  by (simp add: digits_value_def)

lemma digits_value_show_nat: "digits_value 10 (show_nat n) = n"
proof (induction n rule: show_nat.induct)
  case (1 n)
  show ?case
  proof (cases "n < 10")
    case True
    then show ?thesis
      by (subst show_nat.simps) (simp add: digits_value_def digit_value_digit_char)
  next
    case False
    with 1 show ?thesis
      by (subst show_nat.simps) (simp add: digits_value_snoc digit_value_digit_char)
  qed
qed









section \<open>The scenarios, evaluated\<close>

lemma scenario_A_mp4_outcome:
  "observe (handleProcess spec_env scenario_A_mp4) =
     (None,
      ''Error processing file: No output files were created. The file might be too short or there was an error.'',
      [], False, [0, 10, 60], [], [])"
  by code_simp

lemma scenario_A_mov_outcome:
  "observe (handleProcess spec_env scenario_A_mov) =
     (None, [], ''Success! Created 3 segments. Download started.'', False,
      [0, 10, 60, 70, 230 / 3, 250 / 3, 90, 95, 100],
      [(''My_Clip_2024_segments.zip'',
        [(''My_Clip_2024_segment_01.mov'', [11]), (''My_Clip_2024_segment_02.mov'', [12]),
         (''My_Clip_2024_segment_03.mov'', [13])])],
      [])"
  by code_simp

lemma exec_throws_outcome:
  "observe (handleProcess spec_env exec_throws) =
     (None, ''Error processing file: FFmpeg processing failed: boom'', [], False, [0, 10], [], [])"
  by code_simp

lemma exec_throws_stuck_outcome:
  "observe (handleProcess spec_env exec_throws_stuck) =
     (None, ''Error processing file: FFmpeg processing failed: boom'', [], False, [0, 10], [],
      [''clip.mp4'', ''out_01.mp4''])"
  by code_simp

lemma no_outputs_outcome:
  "observe (handleProcess spec_env no_outputs) =
     (None,
      ''Error processing file: No output files were created. The file might be too short or there was an error.'',
      [], False, [0, 10, 60], [], [])"
  by code_simp

lemma no_outputs_stuck_outcome:
  "observe (handleProcess spec_env no_outputs_stuck) =
     (None,
      ''Error processing file: No output files were created. The file might be too short or there was an error.'',
      [], False, [0, 10, 60], [], [''clip.mp4''])"
  by code_simp

lemma delete_rejected_outcome:
  "observe (handleProcess spec_env delete_rejected) =
     (None, ''Error processing file: busy'', [], False, [0, 10, 60, 70, 90, 95],
      [(''clip_segments.zip'', [(''clip_segment_01.mp4'', [11])])], [])"
  by code_simp

lemma exec_throws_bare_object_outcome:
  "observe (handleProcess spec_env exec_throws_bare_object) =
     (None, ''Error processing file: execErr?.toString is not a function'', [], False, [0, 10],
      [], [])"
  by code_simp

lemma length_zero_outcome:
  "observe (handleProcess spec_env length_zero) =
     (None, ''Segment length must be greater than 0.'', ''File selected. Ready to process.'',
      False, [], [], [])"
  by code_simp

section \<open>Failure handling and cleanup\<close>

lemma names_delete: "fst ` set (AList.delete k al) = fst ` set al - {k}"
  by (induction al) auto

lemma deleteFile_calls: "calls (snd (deleteFile n e)) = calls e @ [DeleteFile n]"
  by (simp add: deleteFile_def engine_step_def split: option.splits)

lemma deleteFile_faults: "faults (snd (deleteFile n e)) = faults e"
  by (simp add: deleteFile_def engine_step_def split: option.splits)

lemma deleteFile_ok:
  "faults e (length (calls e)) = None \<Longrightarrow>
     deleteFile n e = (Inr (), e\<lparr>calls := calls e @ [DeleteFile n], vfs := AList.delete n (vfs e)\<rparr>)"
  by (simp add: deleteFile_def engine_step_def)

lemma deleteFile_names_subset: "fst ` set (vfs (snd (deleteFile n e))) \<subseteq> fst ` set (vfs e)"
  by (auto simp: deleteFile_def engine_step_def names_delete split: option.splits)

lemma cleanup_loop_names:
  assumes "\<forall>n\<ge>length (calls e). faults e n = None"
  shows "fst ` set (vfs (cleanup_loop s fs e))
           = fst ` set (vfs e) - {n \<in> set fs. n = s \<or> startsWith n ''out_''}"
  using assms
proof (induction fs arbitrary: e)
  case Nil
  then show ?case by simp
next
  case (Cons f rest)
  show ?case
  proof (cases "f = s \<or> startsWith f ''out_''")
    case False
    then show ?thesis using Cons.IH [OF Cons.prems] by auto
  next
    case True
    let ?e = "e\<lparr>calls := calls e @ [DeleteFile f], vfs := AList.delete f (vfs e)\<rparr>"
    have ok: "deleteFile f e = (Inr (), ?e)" using Cons.prems by (simp add: deleteFile_ok)
    have "\<forall>n\<ge>length (calls ?e). faults ?e n = None" using Cons.prems by simp
    from Cons.IH [OF this] True show ?thesis by (auto simp: ok names_delete)
  qed
qed

lemma listDir_ok:
  "faults e (length (calls e)) = None \<Longrightarrow>
     listDir p e = (Inr (map fst (vfs e)), e\<lparr>calls := calls e @ [ListDir p]\<rparr>)"
  by (simp add: listDir_def engine_step_def)

lemma cleanup_names:
  assumes "\<forall>n\<ge>length (calls e). faults e n = None"
  shows "fst ` set (vfs (cleanup env f e))
           = {n \<in> fst ` set (vfs e). n \<noteq> sanitizeFilename env (name f) \<and> \<not> startsWith n ''out_''}"
proof -
  let ?e = "e\<lparr>calls := calls e @ [ListDir ''/'']\<rparr>"
  have l: "listDir ''/'' e = (Inr (map fst (vfs e)), ?e)" using assms by (simp add: listDir_ok)
  have "\<forall>n\<ge>length (calls ?e). faults ?e n = None" using assms by simp
  from cleanup_loop_names [OF this] show ?thesis by (auto simp: cleanup_def l)
qed

lemma writeFile_ok:
  "faults e (length (calls e)) = None \<Longrightarrow>
     writeFile n d e = (Inr (), e\<lparr>calls := calls e @ [WriteFile n d], vfs := AList.update n d (vfs e)\<rparr>)"
  by (simp add: writeFile_def engine_step_def)

lemma exec_eq:
  "exec argv e =
     ((case faults e (length (calls e)) of Some err \<Rightarrow> Inl err | None \<Rightarrow> Inr ()),
      e\<lparr>calls := calls e @ [Exec argv], vfs := write_all (exec_writes e argv) (vfs e)\<rparr>)"
  by (simp add: exec_def engine_step_def Let_def split: option.splits)

lemma segmenting_eq:
  "segmenting s n x e =
     ((case faults e (length (calls e)) of Some err \<Rightarrow> Inl (inner_catch err) | None \<Rightarrow> Inr ()),
      e\<lparr>calls := calls e @ [Exec (exec_args s n x)],
        vfs := write_all (exec_writes e (exec_args s n x)) (vfs e)\<rparr>)"
  by (simp add: segmenting_def exec_eq split: option.splits)

lemma extract_message_throws:
  "extract_message var fb v = Inl t \<Longrightarrow> t = JError ''TypeError'' (var @ ''?.toString is not a function'')"
  by (cases "(var, v)" rule: call_toString.cases)
     (auto simp: extract_message_def split: option.splits list.splits sum.splits if_splits)

lemma extract_message_nonempty:
  "fb \<noteq> [] \<Longrightarrow> extract_message var fb v = Inr m \<Longrightarrow> m \<noteq> []"
  by (auto simp: extract_message_def split: option.splits list.splits sum.splits)

lemma extract_message_JError:
  "msg \<noteq> [] \<Longrightarrow> extract_message var fb (JError nm msg) = Inr msg"
  by (cases msg) (auto simp: extract_message_def)

lemma inner_catch_shape:
  "\<exists>nm msg. inner_catch v = JError nm msg \<and> msg \<noteq> []"
  by (auto simp: inner_catch_def split: sum.splits dest: extract_message_throws)

lemma catch_block_JError:
  "msg \<noteq> [] \<Longrightarrow>
     catch_block env f (JError nm msg) st e =
       (None, setStatus [] (setError (''Error processing file: '' @ msg) st), cleanup env f e)"
  by (simp add: catch_block_def extract_message_JError)

lemma handleProcess_run:
  assumes "file st = Some f" "isLoaded st" "ffmpeg st = Some e" "0 < segmentLength st"
  shows "handleProcess env st = run env f e st"
  using assms by (simp add: handleProcess_def)

lemma virtualFiles_final [simp]:
  "virtualFiles (setIsProcessing b (st\<lparr>ffmpeg := Some e\<rparr>)) = map fst (vfs e)"
  by (simp add: virtualFiles_def setIsProcessing_def)

lemma setters_error [simp]:
  "error (setIsProcessing b st) = error st"
  "error (setStatus s st) = error st"
  "error (setProgress p st) = error st"
  "error (setError m st) = m"
  "error (st\<lparr>ffmpeg := x\<rparr>) = error st"
  by (simp_all add: setIsProcessing_def setStatus_def setProgress_def setError_def)

lemma setters_isProcessing [simp]:
  "isProcessing (setIsProcessing b st) = b"
  by (simp add: setIsProcessing_def)

text \<open>A run in which the input is written and \<open>exec\<close> throws \<open>v\<close>.\<close>

lemma run_exec_throws:
  assumes buf: "arrayBuffer f = Inr data"
    and w: "faults e (length (calls e)) = None"
    and x: "faults e (Suc (length (calls e))) = Some v"
    and c: "\<forall>n\<ge>length (calls e) + 2. faults e n = None"
    and r: "run env f e st = (r, st')"
  shows "r = None"
    and "\<exists>nm msg. inner_catch v = JError nm msg \<and> error st' = ''Error processing file: '' @ msg"
    and "\<not> isProcessing st'"
    and "\<forall>n\<in>set (virtualFiles st'). n \<noteq> sanitizeFilename env (name f) \<and> \<not> startsWith n ''out_''"
proof -
  let ?s = "sanitizeFilename env (name f)"
  let ?x = "outputExtOf (getFileExtension env ?s)"
  let ?e1 = "e\<lparr>calls := calls e @ [WriteFile ?s data], vfs := AList.update ?s data (vfs e)\<rparr>"
  let ?e2 = "?e1\<lparr>calls := calls ?e1 @ [Exec (exec_args ?s (segmentLength st) ?x)],
        vfs := write_all (exec_writes ?e1 (exec_args ?s (segmentLength st) ?x)) (vfs ?e1)\<rparr>"
  obtain nm msg where ic: "inner_catch v = JError nm msg" and ne: "msg \<noteq> []"
    using inner_catch_shape by blast
  have seg: "segmenting ?s (segmentLength st) ?x ?e1 = (Inl (JError nm msg), ?e2)"
    using x by (simp add: segmenting_eq ic)
  have clean: "\<forall>n\<ge>length (calls ?e2). faults ?e2 n = None" using c by simp
  have res: "run env f e st =
     (None,
      setIsProcessing False
        ((setStatus [] (setError (''Error processing file: '' @ msg)
           (setStatus ''Slicing media file...'' (setProgress 10
             (setStatus ''Loading file into FFmpeg...''
               (setStatus ''Processing... This may take a while for large files.''
                  (setProgress 0 (setError [] (setIsProcessing True st)))))))))
         \<lparr>ffmpeg := Some (cleanup env f ?e2)\<rparr>))"
    unfolding run_def try_block_def Let_def
    by (simp add: buf writeFile_ok [OF w] seg catch_block_JError [OF ne]
        setStatus_def setProgress_def setError_def setIsProcessing_def)
  from r res show "r = None" by simp
  from r res ic show "\<exists>nm msg. inner_catch v = JError nm msg \<and> error st' = ''Error processing file: '' @ msg"
    by auto
  from r res show "\<not> isProcessing st'" by auto
  from r res cleanup_names [OF clean, of env f]
  show "\<forall>n\<in>set (virtualFiles st'). n \<noteq> sanitizeFilename env (name f) \<and> \<not> startsWith n ''out_''"
    by auto
qed

lemma listDir_Inr:
  "listDir p e = (Inr files, e') \<Longrightarrow>
     files = map fst (vfs e) \<and> e' = e\<lparr>calls := calls e @ [ListDir p]\<rparr>"
  by (auto simp: listDir_def engine_step_def split: option.splits)

lemma readFile_vfs: "vfs (snd (readFile n e)) = vfs e"
  by (simp add: readFile_def engine_step_def split: option.splits)

lemma archive_loop_vfs:
  "archive_loop b x len i fs z st e = (res, st', e') \<Longrightarrow> vfs e' = vfs e"
proof (induction fs arbitrary: i z st e)
  case Nil
  then show ?case by simp
next
  case (Cons f rest)
  obtain r e1 where rf: "readFile f e = (r, e1)" by (cases "readFile f e")
  then have v: "vfs e1 = vfs e" using readFile_vfs [of f e] by simp
  show ?case
  proof (cases r)
    case (Inl err)
    with Cons.prems rf v show ?thesis by simp
  next
    case (Inr d)
    with Cons.prems rf have
      "archive_loop b x len (i + 1) rest (zip_file (zipFileName b x i) d z)
         (setProgress (archiving_progress i len) st) e1 = (res, st', e')" by simp
    from Cons.IH [OF this] v show ?thesis by simp
  qed
qed

lemma deleteFile_Inr:
  "deleteFile n e = (Inr u, e') \<Longrightarrow> vfs e' = AList.delete n (vfs e)"
  by (auto simp: deleteFile_def engine_step_def split: option.splits)

lemma delete_outputs_names:
  "delete_outputs fs e = (Inr u, e') \<Longrightarrow> fst ` set (vfs e') = fst ` set (vfs e) - set fs"
proof (induction fs arbitrary: e)
  case Nil
  then show ?case by simp
next
  case (Cons f rest)
  from Cons.prems obtain u1 e1 where d: "deleteFile f e = (Inr u1, e1)"
    and r: "delete_outputs rest e1 = (Inr u, e')"
    by (auto split: prod.splits sum.splits)
  from Cons.IH [OF r] deleteFile_Inr [OF d] show ?case
    by (auto simp: names_delete)
qed

lemma set_select_outputs: "set (select_outputs x files) = {n \<in> set files. is_output x n}"
  by (auto simp: select_outputs_def)

lemma finalizing_success:
  assumes "finalizing env s b outs z st e = (Inr u, st', e')"
  shows "fst ` set (vfs e') = fst ` set (vfs e) - set outs - {s}"
proof -
  from assms obtain u1 e1 u2 where d: "delete_outputs outs e = (Inr u1, e1)"
    and l: "deleteFile s e1 = (Inr u2, e')"
    by (auto simp: finalizing_def Let_def split: option.splits prod.splits sum.splits)
  from delete_outputs_names [OF d] deleteFile_Inr [OF l] show ?thesis
    by (auto simp: names_delete)
qed

lemma archiving_success:
  assumes "archiving env s b x outs st e = (Inr u, st', e')"
  shows "fst ` set (vfs e') = fst ` set (vfs e) - set outs - {s}"
proof -
  from assms obtain z st0 st2 e1 where
    a: "archive_loop b x (length outs) 0 outs [] st0 e = (Inr z, st2, e1)"
    and f: "finalizing env s b outs z st2 e1 = (Inr u, st', e')"
    by (auto simp: archiving_def Let_def split: prod.splits sum.splits)
  from archive_loop_vfs [OF a] finalizing_success [OF f] show ?thesis by simp
qed

lemma collecting_success:
  assumes "collecting env s b x st e = (Inr u, st', e')"
  shows "\<forall>n\<in>fst ` set (vfs e'). n \<noteq> s \<and> \<not> is_output x n"
proof -
  from assms obtain st1 where
    "archiving env s b x (select_outputs x (map fst (vfs e))) st1
       (e\<lparr>calls := calls e @ [ListDir ''/'']\<rparr>) = (Inr u, st', e')"
    by (auto simp: collecting_def Let_def split: prod.splits sum.splits if_splits dest!: listDir_Inr)
  from archiving_success [OF this] show ?thesis
    by (auto simp: set_select_outputs)
qed

lemma try_block_success:
  assumes "try_block env f n st e = (Inr u, st', e')"
  shows "\<forall>k\<in>fst ` set (vfs e').
           k \<noteq> sanitizeFilename env (name f)
           \<and> \<not> is_output (outputExtOf (getFileExtension env (sanitizeFilename env (name f)))) k"
  using assms
  by (auto simp: try_block_def Let_def split: prod.splits sum.splits dest!: collecting_success)

lemma catch_block_error:
  "catch_block env f err st e = (None, st', e') \<Longrightarrow> error st' \<noteq> []"
  by (auto simp: catch_block_def split: sum.splits)

lemma run_success:
  assumes "run env f e st = (None, st')" and "error st' = []"
  shows "\<forall>k\<in>set (virtualFiles st').
           k \<noteq> sanitizeFilename env (name f)
           \<and> \<not> is_output (outputExtOf (getFileExtension env (sanitizeFilename env (name f)))) k"
proof -
  let ?st1 = "setStatus ''Processing... This may take a while for large files.''
                  (setProgress 0 (setError [] (setIsProcessing True st)))"
  obtain res st2 e2 where t: "try_block env f (segmentLength st) ?st1 e = (res, st2, e2)"
    by (cases "try_block env f (segmentLength st) ?st1 e") auto
  show ?thesis
  proof (cases res)
    case (Inr u)
    with assms t have "st' = setIsProcessing False (st2\<lparr>ffmpeg := Some e2\<rparr>)"
      by (simp add: run_def)
    with try_block_success [OF t [unfolded Inr]] show ?thesis by auto
  next
    case (Inl err)
    obtain r st3 e3 where c: "catch_block env f err st2 e2 = (r, st3, e3)"
      by (cases "catch_block env f err st2 e2") auto
    with assms t Inl have "r = None" and "st' = setIsProcessing False (st3\<lparr>ffmpeg := Some e3\<rparr>)"
      by (simp_all add: run_def)
    with catch_block_error [of env f err st2 e2 st3 e3] c assms(2) show ?thesis by simp
  qed
qed

lemma catch_block_clean:
  assumes "catch_block env f err st e = (None, st', e')"
    and "\<forall>n\<ge>length (calls e). faults e n = None"
  shows "\<forall>k\<in>fst ` set (vfs e'). k \<noteq> sanitizeFilename env (name f) \<and> \<not> startsWith k ''out_''"
proof -
  from assms(1) have "e' = cleanup env f e"
    by (auto simp: catch_block_def split: sum.splits)
  with cleanup_names [OF assms(2), of env f] show ?thesis by auto
qed

lemma inner_catch_message:
  assumes "inner_catch v = JError nm msg"
  shows "(\<exists>m. m \<noteq> [] \<and> msg = ''FFmpeg processing failed: '' @ m)
         \<or> msg = ''execErr?.toString is not a function''"
  using assms
  by (auto simp: inner_catch_def split: sum.splits
      dest: extract_message_throws extract_message_nonempty [rotated])

lemma collecting_zero:
  assumes "faults e (length (calls e)) = None"
    and "select_outputs x (map fst (vfs e)) = []"
  shows "collecting env s b x st e =
      (Inl (JError ''Error''
         ''No output files were created. The file might be too short or there was an error.''),
       setStatus ''Collecting segments...'' (setProgress 60 st),
       e\<lparr>calls := calls e @ [ListDir ''/'']\<rparr>)"
  unfolding collecting_def Let_def by (simp add: listDir_ok [OF assms(1)] assms(2))

lemma run_zero_outputs:
  assumes buf: "arrayBuffer f = Inr data"
    and w: "faults e (length (calls e)) = None"
    and x: "faults e (Suc (length (calls e))) = None"
    and l: "faults e (length (calls e) + 2) = None"
    and zero: "outputFiles env f data (segmentLength st) e = []"
    and r: "run env f e st = (r, st')"
  shows "r = None"
    and "error st' = ''Error processing file: No output files were created. The file might be too short or there was an error.''"
    and "\<not> isProcessing st'"
    and "downloads st' = downloads st"
    and "(\<forall>n\<ge>length (calls e) + 3. faults e n = None) \<Longrightarrow>
           sanitizeFilename env (name f) \<notin> set (virtualFiles st')"
proof -
  let ?s = "sanitizeFilename env (name f)"
  let ?x = "outputExtOf (getFileExtension env ?s)"
  let ?a = "exec_args ?s (segmentLength st) ?x"
  let ?e3 = "e\<lparr>vfs := write_all (exec_writes e ?a) (AList.update ?s data (vfs e)),
               calls := calls e @ [WriteFile ?s data, Exec ?a, ListDir ''/'']\<rparr>"
  let ?msg = "''No output files were created. The file might be too short or there was an error.''"
  have z: "select_outputs ?x (map fst (write_all (exec_writes e ?a) (AList.update ?s data (vfs e)))) = []"
    using zero by (simp add: outputFiles_def listing_def Let_def)
  have l': "faults e (Suc (Suc (length (calls e)))) = None" using l by simp
  have res: "run env f e st =
     (None,
      setIsProcessing False
        ((setStatus [] (setError (''Error processing file: '' @ ?msg)
           (setStatus ''Collecting segments...'' (setProgress 60
             (setStatus ''Slicing media file...'' (setProgress 10
               (setStatus ''Loading file into FFmpeg...''
                 (setStatus ''Processing... This may take a while for large files.''
                    (setProgress 0 (setError [] (setIsProcessing True st)))))))))))
         \<lparr>ffmpeg := Some (cleanup env f ?e3)\<rparr>))"
    unfolding run_def try_block_def Let_def
    by (simp add: buf writeFile_ok [OF w] segmenting_eq x collecting_zero l' z catch_block_JError)
  from r res show "r = None" by simp
  from r res show "error st' = ''Error processing file: No output files were created. The file might be too short or there was an error.''"
    by auto
  from r res show "\<not> isProcessing st'" by auto
  from r res show "downloads st' = downloads st"
    by (auto simp: setStatus_def setProgress_def setError_def setIsProcessing_def)
  assume c: "\<forall>n\<ge>length (calls e) + 3. faults e n = None"
  then have "\<forall>n\<ge>length (calls ?e3). faults ?e3 n = None" by simp
  from cleanup_names [OF this, of env f] r res
  show "sanitizeFilename env (name f) \<notin> set (virtualFiles st')" by auto
qed

text \<open>
  C5, amended. For every run in which the input is written, the segmentation command
  returns, and the filtered listing has no qualifying entry, the promise is fulfilled and
  the run ends failed with the message of the zero-output guard (no archive is delivered);
  that message differs from every message a throwing \<open>exec\<close> leads to. The written input
  is removed from the virtual filesystem provided no call of the cleanup (the listing
  and the deletions) is rejected.
\<close>

theorem zero_outputs_fail:
  assumes "file st = Some f" "isLoaded st" "ffmpeg st = Some e" "0 < segmentLength st"
    and "arrayBuffer f = Inr data"
    and "faults e (length (calls e)) = None"
    and "faults e (Suc (length (calls e))) = None"
    and "faults e (length (calls e) + 2) = None"
    and "outputFiles env f data (segmentLength st) e = []"
    and "handleProcess env st = (r, st')"
  shows "r = None \<and> \<not> isProcessing st' \<and> downloads st' = downloads st
    \<and> error st' = ''Error processing file: No output files were created. The file might be too short or there was an error.''
    \<and> (\<forall>v nm msg. inner_catch v = JError nm msg \<longrightarrow> ''Error processing file: '' @ msg \<noteq> error st')
    \<and> ((\<forall>n\<ge>length (calls e) + 3. faults e n = None) \<longrightarrow>
          sanitizeFilename env (name f) \<notin> set (virtualFiles st'))"
proof -
  have r: "run env f e st = (r, st')"
    using assms(1-4,10) by (simp add: handleProcess_run)
  note z = run_zero_outputs [OF assms(5-9) r]
  have "''Error processing file: '' @ msg \<noteq> error st'" if "inner_catch v = JError nm msg" for v nm msg
    using inner_catch_message [OF that] z(2) by auto
  with z show ?thesis by blast
qed

theorem zero_outputs_fail_witness:
  "file no_outputs = Some clip_mp4 \<and> isLoaded no_outputs \<and> 0 < segmentLength no_outputs
   \<and> arrayBuffer clip_mp4 = Inr [7, 8, 9]
   \<and> outputFiles spec_env clip_mp4 [7, 8, 9] 30 (fresh_engine (\<lambda>n. None) []) = []
   \<and> observe (handleProcess spec_env no_outputs) =
       (None,
        ''Error processing file: No output files were created. The file might be too short or there was an error.'',
        [], False, [0, 10, 60], [], [])
   \<and> sanitizeFilename spec_env (name clip_mp4) = ''clip.mp4''
   \<and> ''clip.mp4'' \<notin> set (virtualFiles (snd (handleProcess spec_env no_outputs)))"
proof -
  let ?e = "fresh_engine (\<lambda>n. None) []"
  have pre: "file no_outputs = Some clip_mp4" "isLoaded no_outputs" "ffmpeg no_outputs = Some ?e"
    "0 < segmentLength no_outputs" "arrayBuffer clip_mp4 = Inr [7, 8, 9]"
    by (simp_all add: no_outputs_def ready_app_def clip_mp4_def)
  have f: "faults ?e (length (calls ?e)) = None" "faults ?e (Suc (length (calls ?e))) = None"
    "faults ?e (length (calls ?e) + 2) = None" "\<forall>n\<ge>length (calls ?e) + 3. faults ?e n = None"
    by (simp_all add: fresh_engine_def)
  have s: "sanitizeFilename spec_env (name clip_mp4) = ''clip.mp4''" by code_simp
  have z: "outputFiles spec_env clip_mp4 [7, 8, 9] (segmentLength no_outputs) ?e = []" by code_simp
  have h: "handleProcess spec_env no_outputs
      = (fst (handleProcess spec_env no_outputs), snd (handleProcess spec_env no_outputs))" by simp
  have n: "segmentLength no_outputs = 30" by (simp add: no_outputs_def ready_app_def)
  from zero_outputs_fail [OF pre f(1-3) z h] f(4)
  have r: "''clip.mp4'' \<notin> set (virtualFiles (snd (handleProcess spec_env no_outputs)))"
    by (simp add: s)
  show ?thesis
    using pre(1,2,4,5) z [unfolded n] no_outputs_outcome s r
    by (intro conjI) assumption+
qed

text \<open>
  As stated the claim fails where the cleanup's deletion of the input is rejected: the
  rejection is swallowed (line 184) and the input stays.
\<close>

theorem zero_outputs_input_left_counterexample:
  "observe (handleProcess spec_env no_outputs_stuck) =
     (None,
      ''Error processing file: No output files were created. The file might be too short or there was an error.'',
      [], False, [0, 10, 60], [], [''clip.mp4''])"
  by (rule no_outputs_stuck_outcome)

text \<open>
  C1, amended. Let the preconditions of a run hold. (1) If the input is written, \<open>exec\<close>
  throws, and no later engine call is rejected, the promise is fulfilled, the run ends
  failed, and the virtual filesystem has no entry named the sanitized input name and no
  entry whose name starts with \<open>out_\<close>. (2) After a run that ends without an error
  message, the virtual filesystem has no entry named the sanitized input name and no
  entry that qualifies as an output (prefix \<open>out_\<close> and the resolved extension). (3)
  Whenever the \<open>catch\<close> clause completes on an engine that rejects no further call, the
  virtual filesystem has no entry named the sanitized input name and none that starts
  with \<open>out_\<close>.
\<close>

theorem cleanup_after_run:
  assumes "file st = Some f" "isLoaded st" "ffmpeg st = Some e" "0 < segmentLength st"
  shows
    "(arrayBuffer f = Inr data \<and> faults e (length (calls e)) = None
        \<and> faults e (Suc (length (calls e))) = Some v
        \<and> (\<forall>n\<ge>length (calls e) + 2. faults e n = None)
        \<and> handleProcess env st = (r, st')
      \<longrightarrow> r = None \<and> \<not> isProcessing st'
          \<and> startsWith (error st') ''Error processing file: ''
          \<and> (\<forall>k\<in>set (virtualFiles st').
                k \<noteq> sanitizeFilename env (name f) \<and> \<not> startsWith k ''out_''))
   \<and> (handleProcess env st = (None, st'') \<and> error st'' = []
      \<longrightarrow> (\<forall>k\<in>set (virtualFiles st'').
                k \<noteq> sanitizeFilename env (name f)
                \<and> \<not> is_output (outputExtOf (getFileExtension env (sanitizeFilename env (name f)))) k))
   \<and> (catch_block env f err st0 e0 = (None, st1, e1) \<and> (\<forall>n\<ge>length (calls e0). faults e0 n = None)
      \<longrightarrow> (\<forall>k\<in>fst ` set (vfs e1).
                k \<noteq> sanitizeFilename env (name f) \<and> \<not> startsWith k ''out_''))"
proof (intro conjI impI)
  assume h: "arrayBuffer f = Inr data \<and> faults e (length (calls e)) = None
        \<and> faults e (Suc (length (calls e))) = Some v
        \<and> (\<forall>n\<ge>length (calls e) + 2. faults e n = None)
        \<and> handleProcess env st = (r, st')"
  then have run: "run env f e st = (r, st')" using assms by (simp add: handleProcess_run)
  from h have a: "arrayBuffer f = Inr data" "faults e (length (calls e)) = None"
    "faults e (Suc (length (calls e))) = Some v" "\<forall>n\<ge>length (calls e) + 2. faults e n = None"
    by simp_all
  note t = run_exec_throws [OF a run]
  show "r = None" by (rule t(1))
  show "\<not> isProcessing st'" by (rule t(3))
  show "startsWith (error st') ''Error processing file: ''"
    using t(2) by (auto simp: startsWith_def)
  show "\<forall>k\<in>set (virtualFiles st'). k \<noteq> sanitizeFilename env (name f) \<and> \<not> startsWith k ''out_''"
    by (rule t(4))
next
  assume h: "handleProcess env st = (None, st'') \<and> error st'' = []"
  then have "run env f e st = (None, st'')" using assms by (simp add: handleProcess_run)
  from run_success [OF this] h
  show "\<forall>k\<in>set (virtualFiles st'').
                k \<noteq> sanitizeFilename env (name f)
                \<and> \<not> is_output (outputExtOf (getFileExtension env (sanitizeFilename env (name f)))) k"
    by simp
next
  assume "catch_block env f err st0 e0 = (None, st1, e1) \<and> (\<forall>n\<ge>length (calls e0). faults e0 n = None)"
  then show "\<forall>k\<in>fst ` set (vfs e1). k \<noteq> sanitizeFilename env (name f) \<and> \<not> startsWith k ''out_''"
    using catch_block_clean by blast
qed

theorem cleanup_after_run_witness:
  "file exec_throws = Some clip_mp4 \<and> isLoaded exec_throws \<and> 0 < segmentLength exec_throws
   \<and> arrayBuffer clip_mp4 = Inr [7, 8, 9]
   \<and> observe (handleProcess spec_env exec_throws) =
       (None, ''Error processing file: FFmpeg processing failed: boom'', [], False, [0, 10], [], [])
   \<and> list_all (\<lambda>k. k \<noteq> ''clip.mp4'' \<and> \<not> startsWith k ''out_'')
        (virtualFiles (snd (handleProcess spec_env exec_throws)))
   \<and> file scenario_A_mov = Some \<lparr>name = clip_mov, arrayBuffer = Inr [7, 8, 9]\<rparr>
   \<and> isLoaded scenario_A_mov \<and> 0 < segmentLength scenario_A_mov
   \<and> observe (handleProcess spec_env scenario_A_mov) =
       (None, [], ''Success! Created 3 segments. Download started.'', False,
        [0, 10, 60, 70, 230 / 3, 250 / 3, 90, 95, 100],
        [(''My_Clip_2024_segments.zip'',
          [(''My_Clip_2024_segment_01.mov'', [11]), (''My_Clip_2024_segment_02.mov'', [12]),
           (''My_Clip_2024_segment_03.mov'', [13])])],
        [])
   \<and> list_all (\<lambda>k. k \<noteq> ''My_Clip_2024.mov'' \<and> \<not> is_output ''mov'' k)
        (virtualFiles (snd (handleProcess spec_env scenario_A_mov)))
   \<and> fst (catch_block spec_env clip_mp4 busy exec_throws littered_engine) = None
   \<and> map fst (vfs (snd (snd (catch_block spec_env clip_mp4 busy exec_throws littered_engine))))
       = [''keep.txt'']
   \<and> list_all (\<lambda>k. k \<noteq> ''clip.mp4'' \<and> \<not> startsWith k ''out_'')
        (map fst (vfs (snd (snd (catch_block spec_env clip_mp4 busy exec_throws littered_engine)))))"
proof -
  let ?e = "fresh_engine (\<lambda>n. if n = 1 then Some (JString ''boom'') else None) [(''out_01.mp4'', [11])]"
  let ?c = "catch_block spec_env clip_mp4 busy exec_throws littered_engine"
  have pre: "file exec_throws = Some clip_mp4" "isLoaded exec_throws" "ffmpeg exec_throws = Some ?e"
    "0 < segmentLength exec_throws"
    by (simp_all add: exec_throws_def ready_app_def clip_mp4_def)
  have a: "arrayBuffer clip_mp4 = Inr [7, 8, 9] \<and> faults ?e (length (calls ?e)) = None
      \<and> faults ?e (Suc (length (calls ?e))) = Some (JString ''boom'')
      \<and> (\<forall>n\<ge>length (calls ?e) + 2. faults ?e n = None)
      \<and> handleProcess spec_env exec_throws
          = (fst (handleProcess spec_env exec_throws), snd (handleProcess spec_env exec_throws))"
    by (simp add: clip_mp4_def fresh_engine_def)
  have c1: "fst ?c = None" by (simp add: catch_block_JError busy_def)
  then have c: "?c = (None, fst (snd ?c), snd (snd ?c))
      \<and> (\<forall>n\<ge>length (calls littered_engine). faults littered_engine n = None)"
    by (simp add: littered_engine_def prod_eq_iff)
  have v: "map fst (vfs (snd (snd ?c))) = [''keep.txt'']" by code_simp
  have s: "sanitizeFilename spec_env (name clip_mp4) = ''clip.mp4''" by code_simp
  note t = cleanup_after_run [OF pre, where data = "[7, 8, 9]" and v = "JString ''boom''"
      and env = spec_env and r = "fst (handleProcess spec_env exec_throws)"
      and st' = "snd (handleProcess spec_env exec_throws)"
      and err = busy and ?st0.0 = exec_throws and ?e0.0 = littered_engine
      and ?st1.0 = "fst (snd ?c)" and ?e1.0 = "snd (snd ?c)"]
  from t a have "\<forall>k\<in>set (virtualFiles (snd (handleProcess spec_env exec_throws))).
      k \<noteq> ''clip.mp4'' \<and> \<not> startsWith k ''out_''"
    by (simp add: s)
  then have l1: "list_all (\<lambda>k. k \<noteq> ''clip.mp4'' \<and> \<not> startsWith k ''out_'')
        (virtualFiles (snd (handleProcess spec_env exec_throws)))"
    by (simp add: list_all_iff)
  from t c have "\<forall>k\<in>fst ` set (vfs (snd (snd ?c))). k \<noteq> ''clip.mp4'' \<and> \<not> startsWith k ''out_''"
    by (simp add: s)
  then have l3: "list_all (\<lambda>k. k \<noteq> ''clip.mp4'' \<and> \<not> startsWith k ''out_'')
        (map fst (vfs (snd (snd ?c))))"
    by (simp add: list_all_iff)
  let ?f = "\<lparr>name = clip_mov, arrayBuffer = Inr [7, 8, 9]\<rparr>"
  let ?e' = "fresh_engine (\<lambda>n. None)
      [(''out_01.mov'', [11]), (''out_02.mov'', [12]), (''out_03.mov'', [13])]"
  have pre': "file scenario_A_mov = Some ?f" "isLoaded scenario_A_mov"
    "ffmpeg scenario_A_mov = Some ?e'" "0 < segmentLength scenario_A_mov"
    by (simp_all add: scenario_A_mov_def ready_app_def)
  have ok: "handleProcess spec_env scenario_A_mov = (None, snd (handleProcess spec_env scenario_A_mov))
      \<and> error (snd (handleProcess spec_env scenario_A_mov)) = []"
    using scenario_A_mov_outcome by (simp add: observe_def prod_eq_iff)
  have s': "sanitizeFilename spec_env clip_mov = ''My_Clip_2024.mov''" by code_simp
  have x': "outputExtOf (getFileExtension spec_env ''My_Clip_2024.mov'') = ''mov''" by code_simp
  from cleanup_after_run [OF pre', where env = spec_env
      and st'' = "snd (handleProcess spec_env scenario_A_mov)", THEN conjunct2, THEN conjunct1] ok
  have "\<forall>k\<in>set (virtualFiles (snd (handleProcess spec_env scenario_A_mov))).
      k \<noteq> ''My_Clip_2024.mov'' \<and> \<not> is_output ''mov'' k"
    by (simp add: s' x')
  then have l2: "list_all (\<lambda>k. k \<noteq> ''My_Clip_2024.mov'' \<and> \<not> is_output ''mov'' k)
        (virtualFiles (snd (handleProcess spec_env scenario_A_mov)))"
    by (simp add: list_all_iff)
  show ?thesis
    using pre(1,2,4) a [THEN conjunct1] exec_throws_outcome l1 pre'(1,2,4) scenario_A_mov_outcome
      l2 c1 v l3
    by (intro conjI) assumption+
qed

text \<open>
  As stated the claim fails where the deletions of the cleanup are rejected: \<open>exec\<close> has
  thrown, the run ends failed, and both the input and the segment written stay.
\<close>

theorem cleanup_residue_counterexample:
  "observe (handleProcess spec_env exec_throws_stuck) =
     (None, ''Error processing file: FFmpeg processing failed: boom'', [], False, [0, 10], [],
      [''clip.mp4'', ''out_01.mp4''])"
  by (rule exec_throws_stuck_outcome)

section \<open>The archive and the progress values\<close>

lemma digit_value_zero: "digit_value CHR ''0'' = Some 0"
  by (simp add: digit_value_def)

lemma digits_value_leading_zeros: "digits_value r (replicate k CHR ''0'' @ s) = digits_value r s"
proof -
  have "foldl (\<lambda>acc c. acc * r + (case digit_value c of None \<Rightarrow> 0 | Some d \<Rightarrow> d)) 0
          (replicate k CHR ''0'') = 0"
    by (induction k) (simp_all add: digit_value_zero)
  then show ?thesis by (simp add: digits_value_def)
qed

lemma digits_value_ordinal: "digits_value 10 (padStart (show_nat n) 2 CHR ''0'') = n"
  by (simp add: padStart_def digits_value_leading_zeros digits_value_show_nat)

lemma zipFileName_inj: "zipFileName b x i = zipFileName b x j \<Longrightarrow> i = j"
proof -
  assume "zipFileName b x i = zipFileName b x j"
  then have "padStart (show_nat (i + 1)) 2 CHR ''0'' = padStart (show_nat (j + 1)) 2 CHR ''0''"
    by (simp add: zipFileName_def)
  then have "digits_value 10 (padStart (show_nat (i + 1)) 2 CHR ''0'')
           = digits_value 10 (padStart (show_nat (j + 1)) 2 CHR ''0'')" by simp
  then show "i = j" by (simp only: digits_value_ordinal)
qed




lemma setters_downloads [simp]:
  "downloads (setIsProcessing b st) = downloads st"
  "downloads (setStatus s st) = downloads st"
  "downloads (setProgress p st) = downloads st"
  "downloads (setError m st) = downloads st"
  by (simp_all add: setIsProcessing_def setStatus_def setProgress_def setError_def)

lemma setters_emitted [simp]:
  "emitted (setIsProcessing b st) = emitted st"
  "emitted (setStatus s st) = emitted st"
  "emitted (setProgress p st) = emitted st @ [p]"
  "emitted (setError m st) = emitted st"
  by (simp_all add: setIsProcessing_def setStatus_def setProgress_def setError_def)

lemma archive_loop_obs:
  assumes "archive_loop b x len i fs z0 st e = (res, st', e')"
  shows "downloads st' = downloads st"
    and "\<exists>k\<le>length fs. emitted st' = emitted st @ map (\<lambda>j. archiving_progress j len) [i..<i + k]
            \<and> (\<forall>z. res = Inr z \<longrightarrow> k = length fs)"
  using assms
proof (induction fs arbitrary: i z0 st e)
  case Nil
  { case 1 then show ?case by simp }
  { case 2 then show ?case by simp }
next
  case (Cons f rest)
  { case 1
    obtain r e1 where rf: "readFile f e = (r, e1)" by (cases "readFile f e")
    show ?case
    proof (cases r)
      case (Inl err)
      from 1 show ?thesis by (simp add: rf [unfolded Inl])
    next
      case (Inr d)
      from 1 have
        "archive_loop b x len (i + 1) rest (zip_file (zipFileName b x i) d z0)
           (setProgress (archiving_progress i len) st) e1 = (res, st', e')"
        by (simp add: rf [unfolded Inr])
      from Cons.IH(1) [OF this] show ?thesis by simp
    qed }
  { case 2
    obtain r e1 where rf: "readFile f e = (r, e1)" by (cases "readFile f e")
    show ?case
    proof (cases r)
      case (Inl err)
      from 2 have "st' = st" "res = Inl err" by (simp_all add: rf [unfolded Inl])
      then show ?thesis by (intro exI [of _ 0]) simp
    next
      case (Inr d)
      from 2 have
        "archive_loop b x len (i + 1) rest (zip_file (zipFileName b x i) d z0)
           (setProgress (archiving_progress i len) st) e1 = (res, st', e')"
        by (simp add: rf [unfolded Inr])
      from Cons.IH(2) [OF this] obtain k where k: "k \<le> length rest"
        and em: "emitted st' = emitted st @ archiving_progress i len
                   # map (\<lambda>j. archiving_progress j len) [i + 1..<i + 1 + k]"
        and full: "\<forall>z. res = Inr z \<longrightarrow> k = length rest" by auto
      have "[i..<i + Suc k] = i # [i + 1..<i + 1 + k]" by (simp add: upt_rec)
      with k em full show ?thesis by (intro exI [of _ "Suc k"]) simp
    qed }
qed

lemma zip_file_names:
  "n \<notin> set (map fst z) \<Longrightarrow> map fst (zip_file n d z) = map fst z @ [n]"
  by (simp add: zip_file_def update_keys)

lemma archive_loop_names:
  assumes "archive_loop b x len i fs z0 st e = (Inr z, st', e')"
    and "map fst z0 = map (zipFileName b x) [0..<i]"
  shows "map fst z = map (zipFileName b x) [0..<i + length fs]"
  using assms
proof (induction fs arbitrary: i z0 st e)
  case Nil
  then show ?case by simp
next
  case (Cons f rest)
  from Cons.prems(1) obtain d e1 where rf: "readFile f e = (Inr d, e1)"
    and rest: "archive_loop b x len (i + 1) rest (zip_file (zipFileName b x i) d z0)
           (setProgress (archiving_progress i len) st) e1 = (Inr z, st', e')"
    by (auto split: prod.splits sum.splits)
  have "zipFileName b x i \<notin> set (map fst z0)"
    using Cons.prems(2) by (auto dest: zipFileName_inj)
  then have "map fst (zip_file (zipFileName b x i) d z0) = map (zipFileName b x) [0..<i + 1]"
    using Cons.prems(2) by (simp add: zip_file_names)
  from Cons.IH [OF rest this] show ?case by simp
qed


lemma writeFile_Inr:
  "writeFile n d e = (Inr u, e') \<Longrightarrow>
     vfs e' = AList.update n d (vfs e) \<and> exec_writes e' = exec_writes e"
  by (auto simp: writeFile_def engine_step_def split: option.splits)

lemma segmenting_Inr:
  "segmenting s n x e = (Inr u, e') \<Longrightarrow>
     vfs e' = write_all (exec_writes e (exec_args s n x)) (vfs e)"
  by (auto simp: segmenting_eq split: option.splits)

lemma archive_loop_Inl:
  "archive_loop b x len i fs z0 st e = (Inl err, st', e') \<Longrightarrow> downloads st' = downloads st"
  by (rule archive_loop_obs(1))

lemma archive_loop_Inr:
  assumes "archive_loop b x len 0 fs [] st e = (Inr z, st', e')"
  shows "downloads st' = downloads st
       \<and> emitted st' = emitted st @ map (\<lambda>j. archiving_progress j len) [0..<length fs]
       \<and> map fst z = map (zipFileName b x) [0..<length fs]"
  using archive_loop_obs [OF assms] archive_loop_names [OF assms] by auto

lemma finalizing_obs:
  assumes "finalizing env s b outs z st e = (res, st', e')"
  shows "downloads st' = downloads st
       \<or> downloads st' = downloads st @ [(b @ ''_segments.zip'', z)]
          \<and> (\<exists>tl. emitted st' = emitted st @ 95 # tl)"
  using assms
  by (auto simp: finalizing_def Let_def split: option.splits prod.splits sum.splits)

lemma archiving_delivered:
  assumes c: "archiving env s b x outs st e = (res, st', e')"
    and d: "downloads st' \<noteq> downloads st"
  shows "\<exists>z tl. downloads st' = downloads st @ [(b @ ''_segments.zip'', z)]
       \<and> map fst z = map (zipFileName b x) [0..<length outs]
       \<and> emitted st' = emitted st @ 70
           # map (\<lambda>j. archiving_progress j (length outs)) [0..<length outs] @ 95 # tl"
  using c d
  by (auto simp: archiving_def Let_def split: prod.splits sum.splits
      dest!: archive_loop_Inl archive_loop_Inr finalizing_obs)

lemma collecting_delivered:
  assumes c: "collecting env s b x st e = (res, st', e')"
    and d: "downloads st' \<noteq> downloads st"
  shows "\<exists>z tl. downloads st' = downloads st @ [(b @ ''_segments.zip'', z)]
       \<and> map fst z = map (zipFileName b x) [0..<length (select_outputs x (map fst (vfs e)))]
       \<and> 1 \<le> length (select_outputs x (map fst (vfs e)))
       \<and> emitted st' = emitted st @ [60, 70]
           @ map (\<lambda>j. archiving_progress j (length (select_outputs x (map fst (vfs e)))))
               [0..<length (select_outputs x (map fst (vfs e)))]
           @ 95 # tl"
  using c d
  by (auto simp: collecting_def Let_def Suc_le_eq split: prod.splits sum.splits if_splits
      dest!: listDir_Inr archiving_delivered)

lemma try_block_delivered:
  assumes t: "try_block env f n st e = (res, st', e')"
    and d: "downloads st' \<noteq> downloads st"
    and buf: "arrayBuffer f = Inr data"
  shows "\<exists>z tl. downloads st'
           = downloads st @ [(baseNameOf (sanitizeFilename env (name f)) @ ''_segments.zip'', z)]
       \<and> map fst z = map (zipFileName (baseNameOf (sanitizeFilename env (name f)))
                            (outputExtOf (getFileExtension env (sanitizeFilename env (name f)))))
                        [0..<length (outputFiles env f data n e)]
       \<and> 1 \<le> length (outputFiles env f data n e)
       \<and> emitted st' = emitted st @ [10, 60, 70]
           @ map (\<lambda>j. archiving_progress j (length (outputFiles env f data n e)))
               [0..<length (outputFiles env f data n e)]
           @ 95 # tl"
proof -
  let ?s = "sanitizeFilename env (name f)"
  let ?x = "outputExtOf (getFileExtension env ?s)"
  let ?st1 = "setStatus ''Loading file into FFmpeg...'' st"
  let ?st3 = "setStatus ''Slicing media file...'' (setProgress 10 ?st1)"
  obtain wr e1 where w: "writeFile ?s data e = (wr, e1)" by (cases "writeFile ?s data e")
  show ?thesis
  proof (cases wr)
    case (Inl err)
    with t d w buf show ?thesis by (auto simp: try_block_def Let_def)
  next
    case (Inr u)
    note w' = w [unfolded Inr]
    obtain sr e2 where sg: "segmenting ?s n ?x e1 = (sr, e2)" by (cases "segmenting ?s n ?x e1")
    show ?thesis
    proof (cases sr)
      case (Inl err)
      with t d buf show ?thesis by (auto simp: try_block_def Let_def w' sg)
    next
      case (Inr u')
      note sg' = sg [unfolded Inr]
      from t buf have c: "collecting env ?s (baseNameOf ?s) ?x ?st3 e2 = (res, st', e')"
        by (simp add: try_block_def Let_def w' sg')
      from d have d': "downloads st' \<noteq> downloads ?st3" by simp
      have v: "map fst (vfs e2) = listing env f data n e"
        using writeFile_Inr [OF w'] segmenting_Inr [OF sg'] by (simp add: listing_def Let_def)
      then have outs: "select_outputs ?x (map fst (vfs e2)) = outputFiles env f data n e"
        by (simp add: outputFiles_def)
      from collecting_delivered [OF c d'] show ?thesis
        unfolding outs by simp
    qed
  qed
qed

lemma catch_block_obs:
  "catch_block env f err st e = (r, st', e') \<Longrightarrow>
     downloads st' = downloads st \<and> emitted st' = emitted st"
  by (auto simp: catch_block_def split: sum.splits)

lemma run_delivered:
  assumes r: "run env f e st = (r, st')"
    and d: "downloads st' \<noteq> downloads st"
    and buf: "arrayBuffer f = Inr data"
  shows "\<exists>z tl. downloads st'
           = downloads st @ [(baseNameOf (sanitizeFilename env (name f)) @ ''_segments.zip'', z)]
       \<and> map fst z = map (zipFileName (baseNameOf (sanitizeFilename env (name f)))
                            (outputExtOf (getFileExtension env (sanitizeFilename env (name f)))))
                        [0..<length (outputFiles env f data (segmentLength st) e)]
       \<and> 1 \<le> length (outputFiles env f data (segmentLength st) e)
       \<and> emitted st' = emitted st @ [0, 10, 60, 70]
           @ map (\<lambda>j. archiving_progress j (length (outputFiles env f data (segmentLength st) e)))
               [0..<length (outputFiles env f data (segmentLength st) e)]
           @ 95 # tl"
proof -
  let ?st1 = "setStatus ''Processing... This may take a while for large files.''
                  (setProgress 0 (setError [] (setIsProcessing True st)))"
  obtain res st2 e2 where t: "try_block env f (segmentLength st) ?st1 e = (res, st2, e2)"
    by (cases "try_block env f (segmentLength st) ?st1 e") auto
  have fin: "downloads st' = downloads st2 \<and> emitted st' = emitted st2"
  proof (cases res)
    case (Inr u)
    with r t show ?thesis by (auto simp: run_def setIsProcessing_def)
  next
    case (Inl err)
    obtain r' st3 e3 where c: "catch_block env f err st2 e2 = (r', st3, e3)"
      by (cases "catch_block env f err st2 e2") auto
    with r t Inl catch_block_obs [OF c] show ?thesis by (auto simp: run_def setIsProcessing_def)
  qed
  with d have "downloads st2 \<noteq> downloads ?st1" by simp
  from try_block_delivered [OF t this buf] fin show ?thesis by simp
qed

subsection \<open>Progress values are emitted in order\<close>





lemma emits_weaken:
  "emits st st' lo hi \<Longrightarrow> lo' \<le> lo \<Longrightarrow> hi \<le> hi' \<Longrightarrow> emits st st' lo' hi'"
  by (fastforce simp: emits_def)

lemma emits_setters [simp]:
  "emits (setStatus s a) b lo hi = emits a b lo hi"
  "emits a (setStatus s b) lo hi = emits a b lo hi"
  "emits (setError m a) b lo hi = emits a b lo hi"
  "emits a (setError m b) lo hi = emits a b lo hi"
  "emits (setIsProcessing p a) b lo hi = emits a b lo hi"
  "emits a (setIsProcessing p b) lo hi = emits a b lo hi"
  "emits a (b\<lparr>ffmpeg := x\<rparr>) lo hi = emits a b lo hi"
  "emits (setProgress q (setStatus s a)) b lo hi = emits (setProgress q a) b lo hi"
  by (simp_all add: emits_def)

lemma emits_one [simp]: "emits st (setProgress p st) lo hi = (lo \<le> p \<and> p \<le> hi)"
  by (simp add: emits_def)




lemma archiving_progress_last: "0 < len \<Longrightarrow> archiving_progress (len - 1) len = 90"
  by (simp add: archiving_progress_def)









subsection \<open>A run on an engine that rejects no call\<close>












subsection \<open>The entries of the archive\<close>






subsection \<open>The progress values of a run\<close>




section \<open>Preconditions\<close>

text \<open>
  C6. For every run request with no file selected, or the engine not loaded (the flag
  \<open>isLoaded\<close> false or the handle \<open>ffmpeg\<close> null), or a segment length that is not
  greater than 0, the promise is fulfilled at once and the state is the state before with
  one change, the validation message in \<open>error\<close>: the busy flag is as before (the run
  stays idle), progress, status, the emitted progress values and the downloads are
  untouched, and the engine is the same, with no call made and the same files. With a
  file selected and the engine loaded, a segment length of 0 (or less) is reported as
  such.
\<close>

theorem validation_rejects:
  assumes "file st = None \<or> \<not> isLoaded st \<or> ffmpeg st = None \<or> segmentLength st \<le> 0"
  shows "(\<exists>msg. msg \<noteq> []
            \<and> (msg = ''Please select a file and wait for FFmpeg to load.''
                \<or> msg = ''FFmpeg is not initialized. Please wait for it to load.''
                \<or> msg = ''Segment length must be greater than 0.'')
            \<and> handleProcess env st = (None, st\<lparr>error := msg\<rparr>))
       \<and> isProcessing (snd (handleProcess env st)) = isProcessing st
       \<and> progress (snd (handleProcess env st)) = progress st
       \<and> status (snd (handleProcess env st)) = status st
       \<and> emitted (snd (handleProcess env st)) = emitted st
       \<and> downloads (snd (handleProcess env st)) = downloads st
       \<and> ffmpeg (snd (handleProcess env st)) = ffmpeg st
       \<and> engineCalls (snd (handleProcess env st)) = engineCalls st
       \<and> virtualFiles (snd (handleProcess env st)) = virtualFiles st
       \<and> (file st \<noteq> None \<and> isLoaded st \<and> ffmpeg st \<noteq> None \<longrightarrow>
            error (snd (handleProcess env st)) = ''Segment length must be greater than 0.'')"
proof -
  let ?m1 = "''Please select a file and wait for FFmpeg to load.''"
  let ?m2 = "''FFmpeg is not initialized. Please wait for it to load.''"
  let ?m3 = "''Segment length must be greater than 0.''"
  let ?ex = "\<exists>msg. msg \<noteq> []
            \<and> (msg = ?m1 \<or> msg = ?m2 \<or> msg = ?m3)
            \<and> handleProcess env st = (None, st\<lparr>error := msg\<rparr>)"
  consider (a) "file st = None \<or> \<not> isLoaded st"
    | (b) "file st \<noteq> None" "isLoaded st" "ffmpeg st = None"
    | (c) "file st \<noteq> None" "isLoaded st" "ffmpeg st \<noteq> None" "segmentLength st \<le> 0"
    using assms by (cases "file st = None \<or> \<not> isLoaded st"; cases "ffmpeg st = None") auto
  then show ?thesis
  proof cases
    case a
    then have h: "handleProcess env st = (None, st\<lparr>error := ?m1\<rparr>)"
      by (simp add: handleProcess_def setError_def)
    have ?ex by (rule exI [of _ ?m1]) (simp add: h)
    moreover have "\<not> (file st \<noteq> None \<and> isLoaded st \<and> ffmpeg st \<noteq> None)" using a by auto
    ultimately show ?thesis by (simp add: h engineCalls_def virtualFiles_def)
  next
    case b
    then have h: "handleProcess env st = (None, st\<lparr>error := ?m2\<rparr>)"
      by (auto simp add: handleProcess_def setError_def)
    have ?ex by (rule exI [of _ ?m2]) (simp add: h)
    then show ?thesis using b(3) by (simp add: h engineCalls_def virtualFiles_def)
  next
    case c
    then have h: "handleProcess env st = (None, st\<lparr>error := ?m3\<rparr>)"
      by (auto simp add: handleProcess_def setError_def)
    have ?ex by (rule exI [of _ ?m3]) (simp add: h)
    then show ?thesis by (simp add: h engineCalls_def virtualFiles_def)
  qed
qed

theorem validation_rejects_witness:
  "segmentLength length_zero \<le> 0 \<and> file length_zero \<noteq> None \<and> isLoaded length_zero
   \<and> ffmpeg length_zero \<noteq> None \<and> \<not> isProcessing length_zero
   \<and> observe (handleProcess spec_env length_zero) =
       (None, ''Segment length must be greater than 0.'', ''File selected. Ready to process.'',
        False, [], [], [])
   \<and> engineCalls length_zero = []
   \<and> engineCalls (snd (handleProcess spec_env length_zero)) = []"
proof -
  have a: "segmentLength length_zero \<le> 0" "file length_zero \<noteq> None" "isLoaded length_zero"
    "ffmpeg length_zero \<noteq> None" "\<not> isProcessing length_zero" "engineCalls length_zero = []"
    by (simp_all add: length_zero_def ready_app_def engineCalls_def fresh_engine_def)
  from a(1) have "file length_zero = None \<or> \<not> isLoaded length_zero \<or> ffmpeg length_zero = None
      \<or> segmentLength length_zero \<le> 0" by simp
  from validation_rejects [OF this, of spec_env] a(6)
  have c: "engineCalls (snd (handleProcess spec_env length_zero)) = []" by simp
  from a(1-5) length_zero_outcome a(6) c show ?thesis by (intro conjI) assumption+
qed

section \<open>Scenario A\<close>

text \<open>
  C3, amended. The input file is named \<open>My Clip (2024).mov\<close>, whatever its bytes, the
  segment length is 30, the helpers are those the specification describes, and the engine
  (its filesystem empty, no call rejected) produces \<open>out_01.mov\<close> through \<open>out_03.mov\<close>.
  Then the run succeeds: the archive \<open>My_Clip_2024_segments.zip\<close> is delivered with the
  entries \<open>My_Clip_2024_segment_01.mov\<close>, \<open>My_Clip_2024_segment_02.mov\<close> and
  \<open>My_Clip_2024_segment_03.mov\<close>, holding the three segments in this order, the final
  status reports 3 segments, and the virtual filesystem is empty again.
\<close>

theorem scenario_A_archive:
  "observe (handleProcess
      \<lparr>sanitizeFilename = sanitize fb, getFileExtension = extensionOf, generateAsync_fault = None\<rparr>
      \<lparr>file = Some \<lparr>name = ''My Clip (2024).mov'', arrayBuffer = Inr data\<rparr>, segmentLength = 30,
       isProcessing = False, progress = 0, status = s, error = m, isLoaded = True,
       ffmpeg = Some \<lparr>vfs = [], calls = [], faults = (\<lambda>n. None),
                       exec_writes = (\<lambda>argv. [(''out_01.mov'', d1), (''out_02.mov'', d2),
                                                (''out_03.mov'', d3)])\<rparr>,
       emitted = [], downloads = [], resetScheduled = False\<rparr>)
   = (None, [], ''Success! Created 3 segments. Download started.'', False,
      [0, 10, 60, 70, 230 / 3, 250 / 3, 90, 95, 100],
      [(''My_Clip_2024_segments.zip'',
        [(''My_Clip_2024_segment_01.mov'', d1), (''My_Clip_2024_segment_02.mov'', d2),
         (''My_Clip_2024_segment_03.mov'', d3)])],
      [])"
  by code_simp

theorem scenario_A_archive_witness:
  "observe (handleProcess spec_env scenario_A_mov)
   = (None, [], ''Success! Created 3 segments. Download started.'', False,
      [0, 10, 60, 70, 230 / 3, 250 / 3, 90, 95, 100],
      [(''My_Clip_2024_segments.zip'',
        [(''My_Clip_2024_segment_01.mov'', [11]), (''My_Clip_2024_segment_02.mov'', [12]),
         (''My_Clip_2024_segment_03.mov'', [13])])],
      [])"
  using scenario_A_archive [of "''file''" "[7, 8, 9]" "''File selected. Ready to process.''" "[]"
      "[11]" "[12]" "[13]"]
  by (simp add: spec_env_def scenario_A_mov_def ready_app_def fresh_engine_def clip_mov_def)

text \<open>
  As the claim states the scenario, with outputs named \<open>out_01.mp4\<close> through \<open>out_03.mp4\<close>,
  no output qualifies (the filter asks for the extension \<open>.mov\<close> of the input): no archive
  is delivered, and the run ends failed through the zero-output guard.
\<close>

theorem scenario_A_as_stated_counterexample:
  "observe (handleProcess spec_env scenario_A_mp4) =
     (None,
      ''Error processing file: No output files were created. The file might be too short or there was an error.'',
      [], False, [0, 10, 60], [], [])"
  by (rule scenario_A_mp4_outcome)

text \<open>
  Whatever the extension helper answers and whatever the engine produces: once the
  sanitized name is \<open>My_Clip_2024.mov\<close>, every entry of a delivered archive is named
  \<open>My_Clip_2024_segment_\<dots>\<close>, without the extension of the input in its base name.
\<close>

lemma scenario_A_entry_names:
  assumes "run env f e st = (r, st')" and "downloads st' \<noteq> downloads st"
    and "arrayBuffer f = Inr data"
    and "sanitizeFilename env (name f) = ''My_Clip_2024.mov''"
  shows "\<exists>z. downloads st' = downloads st @ [(''My_Clip_2024_segments.zip'', z)]
           \<and> (\<forall>n\<in>set (map fst z). startsWith n ''My_Clip_2024_segment_'')"
proof -
  have b: "baseNameOf ''My_Clip_2024.mov'' = ''My_Clip_2024''" by code_simp
  from run_delivered [OF assms(1-3)] obtain z where
    d: "downloads st' = downloads st @ [(''My_Clip_2024_segments.zip'', z)]"
    and n: "map fst z = map (zipFileName ''My_Clip_2024''
           (outputExtOf (getFileExtension env ''My_Clip_2024.mov'')))
           [0..<length (outputFiles env f data (segmentLength st) e)]"
    unfolding assms(4) b by auto
  have "\<forall>n\<in>set (map fst z). startsWith n ''My_Clip_2024_segment_''"
    unfolding n by (simp add: zipFileName_def startsWith_def)
  with d show ?thesis by blast
qed

section \<open>Errors of the cleanup\<close>

text \<open>
  On the failure path a rejected deletion or listing changes neither what the promise
  settles to nor the state of the component: both are the same for every engine.
\<close>

lemma catch_block_engine_independent:
  "fst (catch_block env f err st e) = fst (catch_block env f err st e')
   \<and> fst (snd (catch_block env f err st e)) = fst (snd (catch_block env f err st e'))"
  by (simp add: catch_block_def split: sum.splits)

text \<open>
  C4, at the failing input. Everything succeeds up to the download, and then the first
  deletion of the success path (line 153) is rejected. The archive has been delivered,
  with its one entry, and yet the run ends failed: the rejection is thrown into the
  \<open>catch\<close> clause and becomes the error of the run, progress stays at 95 and no success
  is reported. A failure of a cleanup deletion has by itself made the run fail.
\<close>

theorem success_path_deletion_rejected:
  "observe (handleProcess spec_env delete_rejected) =
     (None, ''Error processing file: busy'', [], False, [0, 10, 60, 70, 90, 95],
      [(''clip_segments.zip'', [(''clip_segment_01.mp4'', [11])])], [])"
  by (rule delete_rejected_outcome)

section \<open>Values thrown by exec\<close>

text \<open>
  Whatever \<open>exec\<close> throws, the inner \<open>catch\<close> clause throws an \<open>Error\<close> object with a
  message that is not empty (so that the run ends failed, see \<open>run_exec_throws\<close>). For a
  nullish value, a primitive, an \<open>Error\<close>, or an object that has a \<open>toString\<close>, it is the
  wrapped message of the segmentation failure.
\<close>

lemma inner_catch_wrapped:
  assumes "\<forall>m. v \<noteq> JObject m Absent"
  shows "\<exists>msg. msg \<noteq> [] \<and> inner_catch v = JError ''Error'' (''FFmpeg processing failed: '' @ msg)"
proof -
  from assms have "\<exists>msg. extract_message ''execErr'' ''FFmpeg execution failed'' v = Inr msg"
    by (cases "(''execErr'', v)" rule: call_toString.cases)
       (auto simp: extract_message_def split: option.splits list.splits)
  then obtain msg where m: "extract_message ''execErr'' ''FFmpeg execution failed'' v = Inr msg" ..
  from extract_message_nonempty [OF _ m] have "msg \<noteq> []" by simp
  with m show ?thesis by (simp add: inner_catch_def)
qed

text \<open>
  C9, at the failing input. \<open>exec\<close> throws an object that has no \<open>toString\<close> (one made
  by \<open>Object.create(null)\<close>). The inner \<open>catch\<close> clause itself throws, a \<open>TypeError\<close>
  raised by \<open>execErr?.toString()\<close>, instead of producing the message of the segmentation
  failure; the outer clause reports that \<open>TypeError\<close>. The run still ends failed, with the
  promise fulfilled.
\<close>

theorem exec_error_without_toString:
  "inner_catch (JObject None Absent) = JError ''TypeError'' ''execErr?.toString is not a function''
   \<and> observe (handleProcess spec_env exec_throws_bare_object) =
       (None, ''Error processing file: execErr?.toString is not a function'', [], False, [0, 10],
        [], [])"
  using exec_throws_bare_object_outcome by (simp add: inner_catch_def extract_message_def)

end
